theory Spec2Isabelle
  imports Complex_Main "HOL-Library.DAList" "HOL-Library.Sublist"
begin

section \<open>Numbers and built-ins of the language\<close>

text \<open>
  The server is TypeScript, and a \<^verbatim>\<open>number\<close> is a double. Two models of numbers
  are used. The functions whose claims are about the structure of the result (which
  fields come from where, which keys are written, the order of a list) are modelled
  with a \<^verbatim>\<open>number\<close> as a \<^typ>\<open>real\<close>, their arithmetic read as exact
  arithmetic on finite numbers. The claims on the value of a score are about what
  double precision computes, rounding, \<^verbatim>\<open>NaN\<close> and the infinities included;
  \<^verbatim>\<open>computeSignalScore\<close> and the score of \<^verbatim>\<open>generateSignal\<close> are modelled
  for them on the type \<open>f64\<close> of the section on double precision. Values that are
  integers by construction and are printed into strings (loop counters, the clock, the
  result of \<^verbatim>\<open>Math.floor\<close>) are kept as \<^typ>\<open>nat\<close> or \<^typ>\<open>int\<close>.
\<close>

definition Math_round :: "real \<Rightarrow> real" where
  \<comment> \<open>\<^verbatim>\<open>Math.round\<close>: the nearest integer, a tie going towards plus infinity\<close>
  "Math_round x = of_int \<lfloor>x + 1 / 2\<rfloor>"

definition Math_floor :: "real \<Rightarrow> int" where
  "Math_floor x = \<lfloor>x\<rfloor>"

definition Math_min :: "real \<Rightarrow> real \<Rightarrow> real" where
  "Math_min a b = (if a \<le> b then a else b)"

text \<open>
  Printing an integer in decimal, as a template literal does (for the integers below
  \<^verbatim>\<open>1e21\<close> in magnitude, which are printed in full).
\<close>

definition digit_char :: "nat \<Rightarrow> char" where
  "digit_char d = ''0123456789'' ! d"

function show_nat :: "nat \<Rightarrow> string" where
  "show_nat n = (if n < 10 then [digit_char n] else show_nat (n div 10) @ [digit_char (n mod 10)])"
  by pat_completeness auto
termination
  by (relation "measure id") auto

declare show_nat.simps [simp del]

definition show_int :: "int \<Rightarrow> string" where
  "show_int i = (if i < 0 then CHR ''-'' # show_nat (nat (- i)) else show_nat (nat i))"

definition substr :: "string \<Rightarrow> nat \<Rightarrow> nat \<Rightarrow> string" where
  \<comment> \<open>\<^verbatim>\<open>s.substr(start, length)\<close> for a start and a length that are not negative\<close>
  "substr s start len = take len (drop start s)"

section \<open>The random source, the clock and the store\<close>

text \<open>
  \<^verbatim>\<open>Math.random()\<close> returns a number that is at least 0 and less than 1; the type
  of its results says so.
\<close>

typedef unit_interval = "{r :: real. 0 \<le> r \<and> r < 1}"
  morphisms number_of Unit_interval
  by (rule exI [of _ 0]) simp

setup_lifting type_definition_unit_interval

lift_definition fraction :: "nat \<Rightarrow> nat \<Rightarrow> unit_interval"
  is "\<lambda>a b. if a < b then real a / real b else 0"
  by auto

text \<open>
  The state the server functions run in: the results that successive calls of
  \<^verbatim>\<open>Math.random()\<close> and \<^verbatim>\<open>Date.now()\<close> return, how many calls were made,
  and the key-value store. \<^verbatim>\<open>Number.prototype.toString(36)\<close> is a built-in
  that is not modelled; it is a parameter of the state.
\<close>

record MarketState =
  marketId :: string
  eventId :: string
  eventName :: string
  sport :: string
  marketType :: string
  lastOdds :: "(string \<times> real) list"
  impliedProbability :: real
  volatility :: real
  momentum :: real
  lastUpdate :: real
  pollingCadence :: real

text \<open>
  The fields keep the names of the interfaces \<^verbatim>\<open>MarketState\<close> and
  \<^verbatim>\<open>Signal\<close>, but for \<open>id_signal\<close> (the field \<^verbatim>\<open>id\<close>),
  \<open>consensus_odds\<close> (the field \<^verbatim>\<open>odds\<close> of \<^verbatim>\<open>consensus\<close>) and
  \<open>odds_from\<close>, \<open>odds_to\<close> (the fields \<^verbatim>\<open>from\<close> and \<^verbatim>\<open>to\<close> of
  \<^verbatim>\<open>oddsMovement\<close>). The fields that both interfaces have are written with the
  name of the record where it matters: \<open>MarketState.volatility\<close> is the number,
  \<open>Signal.volatility\<close> the label.
\<close>

datatype level = Low | Medium | High

datatype volatility_label = Stable | Normal | HighVolatility | Extreme

record BestLine =
  book :: string
  odds :: real
  price :: string

record Consensus =
  implied :: real
  consensus_odds :: real

record OddsMovement =
  odds_from :: real
  odds_to :: real
  timeWindow :: string

record Signal =
  id_signal :: string
  eventId :: string
  eventName :: string
  sport :: string
  marketType :: string
  triggeredAt :: real
  signalScore :: real
  edge :: real
  confidence :: level
  bestLine :: BestLine
  consensus :: Consensus
  aiProbability :: real
  trigger :: string
  explanation :: string
  whatChanged :: string
  riskLabel :: level
  oddsMovement :: OddsMovement
  volatility :: volatility_label
  timeToStart :: real

record Alert =
  alert_id :: string
  body :: string
  createdAt :: real

text \<open>
  A stored value is the JSON text of a market state, of a signal or of a user's list
  of alerts; \<^verbatim>\<open>JSON.parse\<close> of the text that \<^verbatim>\<open>JSON.stringify\<close> wrote gives
  the record back.
\<close>

datatype blob = MarketJSON MarketState | SignalJSON Signal | AlertsJSON "Alert list"

record world =
  random_src :: "nat \<Rightarrow> unit_interval"
  random_calls :: nat
  clock_src :: "nat \<Rightarrow> int"
  clock_calls :: nat
  toString36 :: "real \<Rightarrow> string"
  kv :: "(string, blob) alist"

definition Math_random :: "world \<Rightarrow> real \<times> world" where
  "Math_random w =
     (number_of (random_src w (random_calls w)), w\<lparr>random_calls := Suc (random_calls w)\<rparr>)"

definition Date_now :: "world \<Rightarrow> int \<times> world" where
  "Date_now w = (clock_src w (clock_calls w), w\<lparr>clock_calls := Suc (clock_calls w)\<rparr>)"

definition pick :: "'a list \<Rightarrow> real \<Rightarrow> 'a" where
  \<comment> \<open>\<^verbatim>\<open>xs[Math.floor(r * xs.length)]\<close>; within range when \<open>xs\<close> is not empty and
      \<open>r\<close> is a result of \<^verbatim>\<open>Math.random()\<close>, see \<open>pick_in_set\<close>\<close>
  "pick xs r = xs ! nat (Math_floor (r * real (length xs)))"

section \<open>Signal generation\<close>

definition books :: "string list" where
  "books = [''DraftKings'', ''FanDuel'', ''BetMGM'', ''Caesars'', ''PointsBet'']"

definition triggers :: "string list" where
  "triggers =
    [''Odds movement over 15 points in 5 minutes'',
     ''AI probability divergence from market consensus exceeds 8%'',
     ''Cross-book arbitrage opportunity detected'',
     ''Sharp money indicators across 3+ books'',
     ''Historical pattern match with 73% win rate'']"

definition explanations :: "string list" where
  "explanations =
    [''Market overreaction to public sentiment. Our AI model shows the line has moved too far.'',
     ''Early sharp action from known professional groups. This typically precedes additional movement.'',
     ''Weather conditions favor the under. Public is heavily on the over, creating value.'',
     ''Injury news not fully priced in by the market. Model adjusts for lineup impact.'',
     ''Historical matchup data suggests current line is inefficient by ~6%.'']"

definition generateSignal :: "MarketState \<Rightarrow> world \<Rightarrow> Signal option \<times> world" where
  "generateSignal marketState w0 =
    (let (now, w1) = Date_now w0;
         timeSinceUpdate = real_of_int now - lastUpdate marketState
     in if MarketState.volatility marketState < 0.3 then (None, w1)
        else
          let (r1, w2) = Math_random w1;
              edge = r1 * 8 + 2;
              (r2, w3) = Math_random w2;
              signalScore = Math_min 100 (Math_round
                ((MarketState.volatility marketState * 40) + (edge * 5) + (r2 * 20)));
              (r3, w4) = Math_random w3;
              bestBook = pick books r3;
              (r4, w5) = Math_random w4;
              bestOdds = - 110 + Math_floor (r4 * 40);
              (r5, w6) = Math_random w5;
              aiProb = 0.5 + (r5 - 0.5) * 0.3;
              (r6, w7) = Math_random w6;
              consensus = 0.5 + (r6 - 0.5) * 0.2;
              (now2, w8) = Date_now w7;
              (r7, w9) = Math_random w8;
              (r8, w10) = Math_random w9;
              (r9, w11) = Math_random w10;
              (r10, w12) = Math_random w11
          in (Some \<lparr>
                id_signal = ''signal-'' @ show_int now2 @ ''-'' @ substr (toString36 w0 r7) 2 9,
                eventId = MarketState.eventId marketState,
                eventName = MarketState.eventName marketState,
                sport = MarketState.sport marketState,
                marketType = MarketState.marketType marketState,
                triggeredAt = real_of_int now,
                signalScore = signalScore,
                edge = edge,
                confidence = (if signalScore > 75 then High
                              else if signalScore > 55 then Medium else Low),
                bestLine = \<lparr>
                  book = bestBook,
                  odds = real_of_int bestOdds,
                  price = (if bestOdds > 0 then ''+'' @ show_int bestOdds else show_int bestOdds)\<rparr>,
                consensus = \<lparr>
                  implied = consensus,
                  consensus_odds = Math_round (- 110 + (consensus - 0.5) * 100)\<rparr>,
                aiProbability = aiProb,
                trigger = pick triggers r8,
                explanation = pick explanations r9,
                whatChanged = ''Line moved from '' @ show_int (bestOdds - 15) @ '' to ''
                  @ show_int bestOdds @ '' across majority of books in last ''
                  @ show_int (Math_floor (timeSinceUpdate / 60000)) @ '' minutes'',
                riskLabel = (if MarketState.volatility marketState > 0.7 then High
                             else if MarketState.volatility marketState > 0.4 then Medium else Low),
                oddsMovement = \<lparr>
                  odds_from = real_of_int (bestOdds - 15),
                  odds_to = real_of_int bestOdds,
                  timeWindow = ''5m''\<rparr>,
                volatility = (if MarketState.volatility marketState > 0.7 then Extreme
                              else if MarketState.volatility marketState > 0.5 then HighVolatility
                              else Normal),
                timeToStart = real_of_int (Math_floor (r10 * 180) + 30)\<rparr>, w12))"

section \<open>The key-value store\<close>

text \<open>
  Modelled from the spec: \<^verbatim>\<open>kv_store.tsx\<close>, which defines \<^verbatim>\<open>kv.set\<close>,
  \<^verbatim>\<open>kv.get\<close> and \<^verbatim>\<open>kv.getByPrefix\<close>, is not among the sources. The
  specification calls it a key-value accessor used as a JSON blob store, and the callers
  read \<^verbatim>\<open>.value\<close> of each entry that \<^verbatim>\<open>getByPrefix\<close> returns. So: a store
  holds at most one value for a key, \<^verbatim>\<open>set\<close> writes the value of a key whether
  or not it has one, \<^verbatim>\<open>get\<close> reads it, and \<^verbatim>\<open>getByPrefix\<close> returns the entries
  whose key starts with the prefix, in the order of the store (an order that no theorem
  here depends on).
\<close>

definition kv_set :: "string \<Rightarrow> blob \<Rightarrow> world \<Rightarrow> world" where
  \<comment> \<open>Modelled from the spec: \<^verbatim>\<open>kv.set\<close> of the absent \<^verbatim>\<open>kv_store.tsx\<close>\<close>
  "kv_set key v w = w\<lparr>kv := DAList.update key v (kv w)\<rparr>"

definition kv_get :: "string \<Rightarrow> world \<Rightarrow> blob option" where
  \<comment> \<open>Modelled from the spec: \<^verbatim>\<open>kv.get\<close> of the absent \<^verbatim>\<open>kv_store.tsx\<close>;
      \<open>None\<close> is the falsy result for a key that holds nothing\<close>
  "kv_get key w = DAList.lookup (kv w) key"

definition kv_getByPrefix :: "string \<Rightarrow> world \<Rightarrow> (string \<times> blob) list" where
  \<comment> \<open>Modelled from the spec: \<^verbatim>\<open>kv.getByPrefix\<close> of the absent \<^verbatim>\<open>kv_store.tsx\<close>\<close>
  "kv_getByPrefix p w = filter (\<lambda>(key, v). prefix p key) (DAList.impl_of (kv w))"

text \<open>
  \<^verbatim>\<open>JSON.parse(k.value as string) as MarketState\<close>: the cast is unchecked. A
  store in which a key of the prefix holds another kind of JSON is outside the model;
  reading it is the outcome \<open>CastFailure\<close>.
\<close>

datatype error = TypeError | Diverges | CastFailure

fun as_market :: "blob \<Rightarrow> MarketState option" where
  "as_market (MarketJSON m) = Some m"
| "as_market _ = None"

fun as_signal :: "blob \<Rightarrow> Signal option" where
  "as_signal (SignalJSON s) = Some s"
| "as_signal _ = None"

fun as_alerts :: "blob \<Rightarrow> Alert list option" where
  "as_alerts (AlertsJSON as) = Some as"
| "as_alerts _ = None"

text \<open>
  \<^verbatim>\<open>Array.prototype.sort\<close> with a comparator is a stable sort: an element goes
  before the first element that it does not compare greater than. Both comparators of
  the server are differences of numbers, for which this is the sorted order.
\<close>

fun insert_by :: "('a \<Rightarrow> 'a \<Rightarrow> real) \<Rightarrow> 'a \<Rightarrow> 'a list \<Rightarrow> 'a list" where
  "insert_by cmp x [] = [x]"
| "insert_by cmp x (y # ys) = (if cmp x y \<le> 0 then x # y # ys else y # insert_by cmp x ys)"

definition js_sort :: "('a \<Rightarrow> 'a \<Rightarrow> real) \<Rightarrow> 'a list \<Rightarrow> 'a list" where
  "js_sort cmp xs = foldr (insert_by cmp) xs []"

section \<open>Mock markets\<close>

definition sports :: "string list" where
  "sports = [''NFL'', ''NBA'', ''MLB'', ''NHL'', ''NCAAF'', ''NCAAB'']"

definition marketTypes :: "string list" where
  "marketTypes = [''Moneyline'', ''Spread'', ''Total'', ''Player Props'']"

definition teams :: "(string \<times> string list) list" where
  "teams =
    [(''NFL'', [''Chiefs'', ''Bills'', ''49ers'', ''Cowboys'', ''Eagles'', ''Ravens'']),
     (''NBA'', [''Lakers'', ''Celtics'', ''Warriors'', ''Nets'', ''Bucks'', ''Nuggets'']),
     (''MLB'', [''Yankees'', ''Dodgers'', ''Astros'', ''Braves'', ''Red Sox'', ''Mets'']),
     (''NHL'', [''Maple Leafs'', ''Lightning'', ''Avalanche'', ''Rangers'', ''Bruins'', ''Oilers'']),
     (''NCAAF'', [''Alabama'', ''Georgia'', ''Ohio State'', ''Michigan'', ''Texas'', ''USC'']),
     (''NCAAB'', [''Duke'', ''Kansas'', ''UNC'', ''Kentucky'', ''Gonzaga'', ''Villanova''])]"

text \<open>
  The loop \<^verbatim>\<open>while (team2 === team1) team2 = ...\<close> draws again as long as the two
  teams are the same; a random source that keeps returning the first team makes it run
  forever, which is the value \<open>None\<close>.
\<close>

partial_function (option) redraw_team2 ::
  "string list \<Rightarrow> string \<Rightarrow> string \<Rightarrow> world \<Rightarrow> (string \<times> world) option" where
  "redraw_team2 sportTeams team1 team2 w =
     (if team2 = team1
      then redraw_team2 sportTeams team1 (pick sportTeams (fst (Math_random w))) (snd (Math_random w))
      else Some (team2, w))"

declare redraw_team2.simps [code]

text \<open>
  One round of the loop of \<^verbatim>\<open>initializeMockMarkets\<close>, up to the market state it
  builds. Reading \<^verbatim>\<open>.length\<close> of the teams of a sport that has none is a
  \<^verbatim>\<open>TypeError\<close>.
\<close>

definition new_market :: "nat \<Rightarrow> world \<Rightarrow> error + (MarketState \<times> world)" where
  "new_market i w0 =
    (let (r1, w1) = Math_random w0;
         sport = pick sports r1
     in case map_of teams sport of
          None \<Rightarrow> Inl TypeError
        | Some sportTeams \<Rightarrow>
           (let (r2, w2) = Math_random w1;
                team1 = pick sportTeams r2;
                (r3, w3) = Math_random w2
            in case redraw_team2 sportTeams team1 (pick sportTeams r3) w3 of
                 None \<Rightarrow> Inl Diverges
               | Some (team2, w4) \<Rightarrow>
                  (let (r4, w5) = Math_random w4;
                       (r5, w6) = Math_random w5;
                       (r6, w7) = Math_random w6;
                       (r7, w8) = Math_random w7;
                       (now, w9) = Date_now w8;
                       (r8, w10) = Math_random w9
                   in Inr (\<lparr>
                        marketId = ''market-'' @ show_nat i,
                        MarketState.eventId = ''event-'' @ show_nat i,
                        MarketState.eventName = team1 @ '' @ '' @ team2,
                        MarketState.sport = sport,
                        MarketState.marketType = pick marketTypes r4,
                        lastOdds = [(''DraftKings'', - 110), (''FanDuel'', - 108), (''BetMGM'', - 112)],
                        impliedProbability = 0.5 + (r5 - 0.5) * 0.2,
                        MarketState.volatility = r6,
                        momentum = r7 * 2 - 1,
                        lastUpdate = real_of_int (now - Math_floor (r8 * 300000)),
                        pollingCadence = 10000\<rparr>, w10))))"

function markets_loop ::
  "nat \<Rightarrow> MarketState list \<Rightarrow> world \<Rightarrow> error + (MarketState list \<times> world)" where
  "markets_loop i markets w =
     (if i < 25
      then (case new_market i w of
              Inl e \<Rightarrow> Inl e
            | Inr (marketState, w') \<Rightarrow>
                markets_loop (Suc i) (markets @ [marketState])
                  (kv_set (''market:'' @ marketId marketState) (MarketJSON marketState) w'))
      else Inr (markets, w))"
  by pat_completeness auto
termination
  by (relation "measure (\<lambda>(i, markets, w). 25 - i)") auto

declare markets_loop.simps [simp del]

definition initializeMockMarkets :: "world \<Rightarrow> error + (MarketState list \<times> world)" where
  "initializeMockMarkets w = markets_loop 0 [] w"

definition market_key :: "nat \<Rightarrow> string" where
  \<comment> \<open>the key that round \<open>i\<close> of the loop writes\<close>
  "market_key i = ''market:'' @ ''market-'' @ show_nat i"

definition signal_key :: "Signal \<Rightarrow> string" where
  \<comment> \<open>the key that \<^verbatim>\<open>generateActiveSignals\<close> stores a signal under\<close>
  "signal_key s = ''signal:'' @ id_signal s"

text \<open>
  The loop that draws the second team ends once a draw selects another team. This holds
  of a random source in which, after every draw, some later draw falls into another
  sixth of the unit interval.
\<close>

definition eventually_other_team :: "world \<Rightarrow> bool" where
  "eventually_other_team w \<longleftrightarrow>
     (\<forall>n. \<exists>k. Math_floor (number_of (random_src w (Suc n + k)) * 6)
                \<noteq> Math_floor (number_of (random_src w n) * 6))"

text \<open>The store's keys of the prefix \<^verbatim>\<open>market:\<close> hold market states.\<close>

definition markets_typed :: "world \<Rightarrow> bool" where
  "markets_typed w =
     list_all (\<lambda>(key, v). prefix ''market:'' key \<longrightarrow> as_market v \<noteq> None) (DAList.impl_of (kv w))"

text \<open>Every market state in the store has a volatility between 0 and 1.\<close>

definition volatility_bounded :: "world \<Rightarrow> bool" where
  "volatility_bounded w =
     list_all (\<lambda>(key, v). case v of
                   MarketJSON m \<Rightarrow> 0 \<le> MarketState.volatility m \<and> MarketState.volatility m \<le> 1
                 | _ \<Rightarrow> True)
       (DAList.impl_of (kv w))"

section \<open>Active signals\<close>

text \<open>
  The loop of \<^verbatim>\<open>generateActiveSignals\<close>; the list is what is left of
  \<^verbatim>\<open>sortedMarkets\<close> from index \<open>i\<close> on, and \<open>bound\<close> is
  \<^verbatim>\<open>Math.min(count, sortedMarkets.length)\<close>.
\<close>

fun signals_loop ::
  "real \<Rightarrow> nat \<Rightarrow> MarketState list \<Rightarrow> Signal list \<Rightarrow> world \<Rightarrow> Signal list \<times> world" where
  "signals_loop bound i [] signals w = (signals, w)"
| "signals_loop bound i (m # rest) signals w =
     (if real i < bound
      then (case generateSignal m w of
              (None, w') \<Rightarrow> signals_loop bound (Suc i) rest signals w'
            | (Some signal, w') \<Rightarrow>
                signals_loop bound (Suc i) rest (signals @ [signal])
                  (kv_set (''signal:'' @ id_signal signal) (SignalJSON signal) w'))
      else (signals, w))"

definition generateActiveSignals :: "real \<Rightarrow> world \<Rightarrow> error + (Signal list \<times> world)" where
  "generateActiveSignals count w =
    (let marketKeys = kv_getByPrefix ''market:'' w
     in case those (map (\<lambda>k. as_market (snd k)) marketKeys) of
          None \<Rightarrow> Inl CastFailure
        | Some markets \<Rightarrow>
           (let sortedMarkets =
                  js_sort (\<lambda>a b. MarketState.volatility b - MarketState.volatility a) markets
            in Inr (signals_loop (Math_min count (real (length sortedMarkets))) 0
                      sortedMarkets [] w)))"

section \<open>The request handlers\<close>

text \<open>
  A handler that returns is \<open>Inr\<close> of its response and the state it leaves. A handler
  whose body throws answers with status 500 from its \<^verbatim>\<open>catch\<close> block; that
  response is not modelled, the run is \<open>Inl\<close> of the error.
\<close>

record InitResponse =
  success :: bool
  markets :: nat
  signals :: nat

definition init_handler :: "world \<Rightarrow> error + (InitResponse \<times> world)" where
  "init_handler w =
    (case initializeMockMarkets w of
       Inl e \<Rightarrow> Inl e
     | Inr (ms, w1) \<Rightarrow>
        (case generateActiveSignals 15 w1 of
           Inl e \<Rightarrow> Inl e
         | Inr (activeSignals, w2) \<Rightarrow>
             Inr (\<lparr>success = True, markets = 25, signals = length activeSignals\<rparr>, w2)))"

text \<open>
  A query parameter is a string or absent; \<^verbatim>\<open>if (sport)\<close> holds for a string that
  is not empty.
\<close>

fun truthy :: "string option \<Rightarrow> bool" where
  "truthy None = False"
| "truthy (Some v) = (v \<noteq> [])"

definition signal_order :: "Signal \<Rightarrow> Signal \<Rightarrow> real" where
  \<comment> \<open>the comparator of \<^verbatim>\<open>GET /signals\<close>\<close>
  "signal_order a b =
     (if signalScore b \<noteq> signalScore a then signalScore b - signalScore a
      else triggeredAt b - triggeredAt a)"

definition get_signals_handler ::
  "string option \<Rightarrow> string option \<Rightarrow> string option \<Rightarrow> world \<Rightarrow> error + Signal list" where
  "get_signals_handler sport_query marketType_query minConfidence w =
    (let signalKeys = kv_getByPrefix ''signal:'' w
     in case those (map (\<lambda>k. as_signal (snd k)) signalKeys) of
          None \<Rightarrow> Inl CastFailure
        | Some allSignals \<Rightarrow>
           (let allSignals1 =
                  (if truthy sport_query
                   then filter (\<lambda>s. Some (Signal.sport s) = sport_query) allSignals
                   else allSignals);
                allSignals2 =
                  (if truthy marketType_query
                   then filter (\<lambda>s. Some (Signal.marketType s) = marketType_query) allSignals1
                   else allSignals1);
                allSignals3 =
                  (if truthy minConfidence
                   then (let minScore = (if minConfidence = Some ''high'' then 75
                                         else if minConfidence = Some ''medium'' then 55 else 0)
                         in filter (\<lambda>s. signalScore s \<ge> minScore) allSignals2)
                   else allSignals2)
            in Inr (js_sort signal_order allSignals3)))"

text \<open>
  \<^verbatim>\<open>POST /alerts/:userId\<close>, the third place that writes to the store: it appends
  an alert made of the request body to the user's list. The body is kept as its text:
  \<open>alert_id\<close> is the id that the handler generates, which the properties of the body
  are spread over, and a body that is not JSON (an exception, status 500, before
  anything is written) is not modelled.
\<close>

definition post_alert_handler :: "string \<Rightarrow> string \<Rightarrow> world \<Rightarrow> error + (Alert \<times> world)" where
  "post_alert_handler userId request_body w0 =
    (let alertsData = kv_get (''user:'' @ userId @ '':alerts'') w0
     in case (case alertsData of None \<Rightarrow> Some [] | Some b \<Rightarrow> as_alerts b) of
          None \<Rightarrow> Inl CastFailure
        | Some alerts \<Rightarrow>
           (let (now1, w1) = Date_now w0;
                (now2, w2) = Date_now w1;
                newAlert = \<lparr>alert_id = ''alert-'' @ show_int now1, body = request_body,
                             createdAt = real_of_int now2\<rparr>
            in Inr (newAlert,
                    kv_set (''user:'' @ userId @ '':alerts'') (AlertsJSON (alerts @ [newAlert])) w2)))"

text \<open>
  The order that the specification gives for the list of \<^verbatim>\<open>GET /signals\<close>: a
  higher score first, and among equal scores the later signal first.
\<close>

definition score_then_time :: "Signal \<Rightarrow> Signal \<Rightarrow> bool" where
  "score_then_time a b \<longleftrightarrow>
     signalScore a > signalScore b
     \<or> (signalScore a = signalScore b \<and> triggeredAt a \<ge> triggeredAt b)"

definition stored_signal :: "world \<Rightarrow> Signal \<Rightarrow> bool" where
  \<comment> \<open>some key of the prefix \<^verbatim>\<open>signal:\<close> holds the signal\<close>
  "stored_signal w s \<longleftrightarrow> SignalJSON s \<in> snd ` set (kv_getByPrefix ''signal:'' w)"

definition passes :: "string option \<Rightarrow> string \<Rightarrow> bool" where
  \<comment> \<open>a query parameter that is absent or empty does not filter\<close>
  "passes query v \<longleftrightarrow> \<not> truthy query \<or> query = Some v"

section \<open>Double precision\<close>

text \<open>
  The values of IEEE 754 binary64: \<^verbatim>\<open>NaN\<close>, the two infinities, the negative
  zero, and \<open>Finite x\<close> for the finite doubles other than the negative zero, \<open>x\<close>
  being the real number that the double is (\<open>Finite 0\<close> is the positive zero). A
  finite double is a multiple of \<open>pow2 (e - 52)\<close> in the binade
  \<open>pow2 e \<le> \<bar>x\<bar> < pow2 (e + 1)\<close>, with \<open>e\<close> from -1022 to 1023, the multiples
  of \<open>pow2 (- 1074)\<close> below \<open>pow2 (- 1022)\<close> being the subnormal ones. The type
  does not say that \<open>x\<close> is such a multiple: the operations round whatever they
  return, and the theorems hold of every \<open>x\<close>.
\<close>

datatype f64 = NaN | PosInf | NegInf | NegZero | Finite real

definition pow2 :: "int \<Rightarrow> real" where
  "pow2 e = (if 0 \<le> e then 2 ^ nat e else 1 / 2 ^ nat (- e))"

text \<open>
  The binade of a positive real: the \<open>e\<close> with \<open>pow2 e \<le> x < pow2 (e + 1)\<close>, but
  -1022 for a smaller \<open>x\<close> and 1024 for a larger one. It is searched for from 0 upwards or
  from -1 downwards.
\<close>

function f64_exponent_up :: "int \<Rightarrow> real \<Rightarrow> int" where
  "f64_exponent_up e x =
     (if e < 1024 \<and> pow2 (e + 1) \<le> x then f64_exponent_up (e + 1) x else e)"
  by pat_completeness auto
termination
  by (relation "measure (\<lambda>(e, x). nat (1024 - e))") auto

function f64_exponent_down :: "int \<Rightarrow> real \<Rightarrow> int" where
  "f64_exponent_down e x =
     (if - 1022 < e \<and> x < pow2 e then f64_exponent_down (e - 1) x else e)"
  by pat_completeness auto
termination
  by (relation "measure (\<lambda>(e, x). nat (e + 1022))") auto

declare f64_exponent_up.simps [simp del] f64_exponent_down.simps [simp del]

definition f64_exponent :: "real \<Rightarrow> int" where
  "f64_exponent x = (if 1 \<le> x then f64_exponent_up 0 x else f64_exponent_down (- 1) x)"

text \<open>
  Rounding to the nearest, a tie going to the even neighbour: of a real to an integer,
  and of a magnitude to a multiple of the quantum of its binade. A magnitude that
  rounds to \<open>pow2 1024\<close> or more overflows to an infinity.
\<close>

definition round_even :: "real \<Rightarrow> int" where
  "round_even q =
     (let n = \<lfloor>q\<rfloor>; r = q - of_int n
      in if r < 1 / 2 then n else if 1 / 2 < r then n + 1 else if even n then n else n + 1)"

definition f64_round_magnitude :: "real \<Rightarrow> real" where
  "f64_round_magnitude x =
     (if x = 0 then 0
      else let quantum = pow2 (f64_exponent x - 52)
           in of_int (round_even (x / quantum)) * quantum)"

definition f64_signed_zero :: "bool \<Rightarrow> f64" where
  "f64_signed_zero neg = (if neg then NegZero else Finite 0)"

definition f64_infinity :: "bool \<Rightarrow> f64" where
  "f64_infinity neg = (if neg then NegInf else PosInf)"

definition to_f64 :: "bool \<Rightarrow> real \<Rightarrow> f64" where
  \<comment> \<open>the double nearest to the real of the given sign and magnitude\<close>
  "to_f64 neg x =
     (let m = f64_round_magnitude x
      in if pow2 1024 \<le> m then f64_infinity neg
         else if m = 0 then f64_signed_zero neg
         else Finite (if neg then - m else m))"

definition f64_literal :: "real \<Rightarrow> f64" where
  \<comment> \<open>a decimal literal of the source, such as \<^verbatim>\<open>0.3\<close>\<close>
  "f64_literal x = to_f64 False x"

fun f64_negative :: "f64 \<Rightarrow> bool" where
  "f64_negative NegInf = True"
| "f64_negative NegZero = True"
| "f64_negative (Finite x) = (x < 0)"
| "f64_negative _ = False"

fun f64_real :: "f64 \<Rightarrow> real" where
  "f64_real (Finite x) = x"
| "f64_real _ = 0"

definition f64_is_zero :: "f64 \<Rightarrow> bool" where
  "f64_is_zero a \<longleftrightarrow> a = NegZero \<or> a = Finite 0"

definition f64_is_infinite :: "f64 \<Rightarrow> bool" where
  "f64_is_infinite a \<longleftrightarrow> a = PosInf \<or> a = NegInf"

text \<open>
  The operators \<^verbatim>\<open>*\<close> and \<^verbatim>\<open>+\<close>: the exact result, rounded. An infinity times
  a zero and the sum of the two infinities are \<^verbatim>\<open>NaN\<close>; an exact sum of zero is the
  positive zero unless both operands are negative (zeros).
\<close>

definition f64_mul :: "f64 \<Rightarrow> f64 \<Rightarrow> f64" where
  "f64_mul a b =
     (if a = NaN \<or> b = NaN then NaN
      else if f64_is_infinite a \<or> f64_is_infinite b
      then (if f64_is_zero a \<or> f64_is_zero b then NaN
            else f64_infinity (f64_negative a \<noteq> f64_negative b))
      else to_f64 (f64_negative a \<noteq> f64_negative b) (\<bar>f64_real a\<bar> * \<bar>f64_real b\<bar>))"

definition f64_add :: "f64 \<Rightarrow> f64 \<Rightarrow> f64" where
  "f64_add a b =
     (if a = NaN \<or> b = NaN then NaN
      else if f64_is_infinite a then (if f64_is_infinite b \<and> b \<noteq> a then NaN else a)
      else if f64_is_infinite b then b
      else let s = f64_real a + f64_real b
           in if s = 0 then f64_signed_zero (f64_negative a \<and> f64_negative b)
              else to_f64 (s < 0) \<bar>s\<bar>)"

text \<open>
  The comparisons \<^verbatim>\<open><\<close> and \<^verbatim>\<open><=\<close>: false when an operand is \<^verbatim>\<open>NaN\<close>,
  and the two zeros are equal.
\<close>

definition f64_less :: "f64 \<Rightarrow> f64 \<Rightarrow> bool" where
  "f64_less a b =
     (if a = NaN \<or> b = NaN then False
      else if a = NegInf then b \<noteq> NegInf
      else if b = PosInf then a \<noteq> PosInf
      else if a = PosInf \<or> b = NegInf then False
      else f64_real a < f64_real b)"

definition f64_less_eq :: "f64 \<Rightarrow> f64 \<Rightarrow> bool" where
  "f64_less_eq a b \<longleftrightarrow> a \<noteq> NaN \<and> b \<noteq> NaN \<and> \<not> f64_less b a"

text \<open>
  \<^verbatim>\<open>Math.round\<close> is the integer nearest to its argument, a tie going towards plus
  infinity, and of the sign of the argument when that integer is zero.
  \<^verbatim>\<open>Math.max\<close> and \<^verbatim>\<open>Math.min\<close> of two arguments are \<^verbatim>\<open>NaN\<close> when one
  of them is, and take the positive zero for greater than the negative one.
\<close>

definition Math_round64 :: "f64 \<Rightarrow> f64" where
  "Math_round64 a =
     (case a of
        Finite x \<Rightarrow>
          (let n = \<lfloor>x + 1 / 2\<rfloor> in if n = 0 then f64_signed_zero (x < 0) else Finite (of_int n))
      | _ \<Rightarrow> a)"

definition Math_max64 :: "f64 \<Rightarrow> f64 \<Rightarrow> f64" where
  "Math_max64 a b =
     (if a = NaN \<or> b = NaN then NaN
      else if f64_less a b then b
      else if a = NegZero \<and> b = Finite 0 then b else a)"

definition Math_min64 :: "f64 \<Rightarrow> f64 \<Rightarrow> f64" where
  "Math_min64 a b =
     (if a = NaN \<or> b = NaN then NaN
      else if f64_less b a then b
      else if a = Finite 0 \<and> b = NegZero then b else a)"

section \<open>The scoring formula\<close>

text \<open>
  \<^verbatim>\<open>computeSignalScore\<close> of \<^verbatim>\<open>signals.tsx\<close>, in double precision; its
  parameter object is a record.
\<close>

record ScoreParams =
  edgeSize :: f64
  speed :: f64
  persistence :: f64
  marketStability :: f64
  historicalPerformance :: f64

definition computeSignalScore :: "'a ScoreParams_scheme \<Rightarrow> f64" where
  "computeSignalScore params =
     (let score =
            f64_add (f64_add (f64_add (f64_add
              (f64_mul (edgeSize params) (f64_literal 0.3))
              (f64_mul (speed params) (f64_literal 0.2)))
              (f64_mul (persistence params) (f64_literal 0.2)))
              (f64_mul (marketStability params) (f64_literal 0.1)))
              (f64_mul (historicalPerformance params) (f64_literal 0.2))
      in Math_min64 (Finite 100) (Math_max64 (Finite 0) (Math_round64 score)))"

text \<open>
  The gate and the score of \<^verbatim>\<open>generateSignal\<close> (the lines 68 to 77 of
  \<^verbatim>\<open>signals.tsx\<close>) in double precision, as a function of the volatility of the
  market state and of the first two random draws: \<open>None\<close> where the function returns
  null, and else the \<^verbatim>\<open>signalScore\<close> of the signal that it returns. In exact
  arithmetic this is \<open>score_of\<close> below.
\<close>

definition generateSignal_signalScore :: "f64 \<Rightarrow> f64 \<Rightarrow> f64 \<Rightarrow> f64 option" where
  "generateSignal_signalScore vol r1 r2 =
     (if f64_less vol (f64_literal 0.3) then None
      else
        let edge = f64_add (f64_mul r1 (Finite 8)) (Finite 2);
            signalScore = Math_min64 (Finite 100) (Math_round64
              (f64_add (f64_add (f64_mul vol (Finite 40)) (f64_mul edge (Finite 5)))
                 (f64_mul r2 (Finite 20))))
        in Some signalScore)"

definition is_random :: "f64 \<Rightarrow> bool" where
  \<comment> \<open>a result of \<^verbatim>\<open>Math.random()\<close>: at least 0 and less than 1\<close>
  "is_random r = (case r of Finite x \<Rightarrow> 0 \<le> x \<and> x < 1 | _ \<Rightarrow> False)"

text \<open>
  The words of the specification, to compare the code with: a weighted sum, rounded to
  the nearest integer, then clamped into an interval; first in exact arithmetic, then
  with the sum in double precision, and a score that lies in the range from 0 to 100.
\<close>

definition weighted_sum :: "real \<Rightarrow> real \<Rightarrow> real \<Rightarrow> real \<Rightarrow> real \<Rightarrow> real" where
  "weighted_sum e s p m h = 3 / 10 * e + 2 / 10 * s + 2 / 10 * p + 1 / 10 * m + 2 / 10 * h"

definition clamp :: "int \<Rightarrow> int \<Rightarrow> int \<Rightarrow> int" where
  "clamp lo hi x = (if x < lo then lo else if hi < x then hi else x)"

definition weighted_sum64 :: "f64 \<Rightarrow> f64 \<Rightarrow> f64 \<Rightarrow> f64 \<Rightarrow> f64 \<Rightarrow> f64" where
  "weighted_sum64 e s p m h =
     f64_add (f64_add (f64_add (f64_add
       (f64_mul e (f64_literal 0.3)) (f64_mul s (f64_literal 0.2)))
       (f64_mul p (f64_literal 0.2))) (f64_mul m (f64_literal 0.1)))
       (f64_mul h (f64_literal 0.2))"

definition round_and_clamp :: "f64 \<Rightarrow> f64" where
  "round_and_clamp s =
     (case s of
        NaN \<Rightarrow> NaN
      | PosInf \<Rightarrow> Finite 100
      | NegInf \<Rightarrow> Finite 0
      | NegZero \<Rightarrow> Finite 0
      | Finite x \<Rightarrow> Finite (of_int (clamp 0 100 (round x))))"

definition in_range :: "f64 \<Rightarrow> bool" where
  \<comment> \<open>\<^verbatim>\<open>0 <= d && d <= 100\<close>\<close>
  "in_range d \<longleftrightarrow> f64_less_eq (Finite 0) d \<and> f64_less_eq d (Finite 100)"

definition f64_finite :: "f64 \<Rightarrow> bool" where
  \<comment> \<open>neither \<^verbatim>\<open>NaN\<close> nor an infinity, and within the range of the finite doubles\<close>
  "f64_finite a = (case a of Finite x \<Rightarrow> \<bar>x\<bar> < pow2 1024 | NegZero \<Rightarrow> True | _ \<Rightarrow> False)"

definition f64_nonneg :: "f64 \<Rightarrow> bool" where
  "f64_nonneg a \<longleftrightarrow> a \<noteq> NaN \<and> \<not> f64_negative a"

definition confidence_bucket :: "real \<Rightarrow> level" where
  \<comment> \<open>the specification's cutoffs: above 75 high, above 55 medium, else low\<close>
  "confidence_bucket score = (if score > 75 then High else if score > 55 then Medium else Low)"

definition score_of :: "MarketState \<Rightarrow> real \<Rightarrow> real \<Rightarrow> real" where
  \<comment> \<open>the score expression of \<^verbatim>\<open>generateSignal\<close>, as a function of its two random draws\<close>
  "score_of m r1 r2 =
     Math_min 100 (Math_round ((MarketState.volatility m * 40) + ((r1 * 8 + 2) * 5) + (r2 * 20)))"

section \<open>Example inputs\<close>

definition example_market :: MarketState where
  "example_market =
     \<lparr>marketId = ''market-0'', MarketState.eventId = ''event-0'',
      MarketState.eventName = ''Chiefs @ Bills'', MarketState.sport = ''NFL'',
      MarketState.marketType = ''Spread'',
      lastOdds = [(''DraftKings'', - 110), (''FanDuel'', - 108), (''BetMGM'', - 112)],
      impliedProbability = 0.5, MarketState.volatility = 1, momentum = 0, lastUpdate = 0,
      pollingCadence = 10000\<rparr>"

definition example_toString36 :: "real \<Rightarrow> string" where
  "example_toString36 r = (if r = 1 / 2 then ''0.abcdefghijklmn'' else ''0.zzzzzzzzzzz'')"

definition example_world :: world where
  "example_world =
     \<lparr>random_src = (\<lambda>n. if n = 1 then fraction 1 4 else fraction 1 2), random_calls = 0,
      clock_src = (\<lambda>n. 1000 + int n), clock_calls = 0,
      toString36 = example_toString36, kv = DAList.empty\<rparr>"

definition example_signal :: Signal where
  "example_signal =
     \<lparr>id_signal = ''signal-1001-abcdefghi'', eventId = ''event-0'', eventName = ''Chiefs @ Bills'',
      sport = ''NFL'', marketType = ''Spread'', triggeredAt = 1000, signalScore = 75, edge = 6,
      confidence = Medium,
      bestLine = \<lparr>book = ''BetMGM'', odds = - 90, price = ''-90''\<rparr>,
      consensus = \<lparr>implied = 1 / 2, consensus_odds = - 110\<rparr>,
      aiProbability = 1 / 2,
      trigger = ''Cross-book arbitrage opportunity detected'',
      explanation = ''Weather conditions favor the under. Public is heavily on the over, creating value.'',
      whatChanged = ''Line moved from -105 to -90 across majority of books in last 0 minutes'',
      riskLabel = High,
      oddsMovement = \<lparr>odds_from = - 105, odds_to = - 90, timeWindow = ''5m''\<rparr>,
      volatility = Extreme, timeToStart = 120\<rparr>"

text \<open>
  A later state: the store holds the signal of the run above and one user's alerts, the
  clock has moved on, and the random source alternates between 0 and 1/3.
\<close>

definition example_alert :: Alert where
  "example_alert = \<lparr>alert_id = ''alert-1500'', body = ''{}'', createdAt = 1500\<rparr>"

definition init_world :: world where
  "init_world =
     \<lparr>random_src = (\<lambda>n. if even n then fraction 0 1 else fraction 1 3), random_calls = 0,
      clock_src = (\<lambda>n. 2000 + int n), clock_calls = 0,
      toString36 = example_toString36,
      kv = DAList.update ''user:u1:alerts'' (AlertsJSON [example_alert])
             (DAList.update ''signal:signal-1001-abcdefghi'' (SignalJSON example_signal)
                DAList.empty)\<rparr>"

text \<open>A store of three signals, for the handler that lists them.\<close>

definition earlier_signal :: Signal where
  "earlier_signal = example_signal\<lparr>id_signal := ''signal-901-zzzzzzzzz'', triggeredAt := 900\<rparr>"

definition better_signal :: Signal where
  "better_signal =
     example_signal\<lparr>id_signal := ''signal-951-zzzzzzzzz'', triggeredAt := 950, signalScore := 80,
       confidence := High, sport := ''NBA''\<rparr>"

definition signals_world :: world where
  "signals_world =
     kv_set (signal_key better_signal) (SignalJSON better_signal)
       (kv_set (signal_key example_signal) (SignalJSON example_signal)
          (kv_set (signal_key earlier_signal) (SignalJSON earlier_signal) example_world))"

definition example_params :: ScoreParams where
  "example_params =
     \<lparr>edgeSize = Finite 80, speed = Finite 60, persistence = Finite 55,
      marketStability = Finite 90, historicalPerformance = Finite 70\<rparr>"

section \<open>Properties of double precision\<close>

lemmas f64_eval = f64_literal_def to_f64_def f64_round_magnitude_def f64_exponent_def
  f64_exponent_down.simps f64_exponent_up.simps pow2_def round_even_def Let_def f64_mul_def
  f64_add_def f64_is_zero_def f64_is_infinite_def f64_signed_zero_def f64_infinity_def
  Math_round64_def Math_max64_def Math_min64_def f64_less_def

lemma literal_three_tenths: "f64_literal 0.3 = Finite (5404319552844595 / 18014398509481984)"
  by (simp add: f64_eval)

lemma literal_two_tenths: "f64_literal 0.2 = Finite (3602879701896397 / 18014398509481984)"
  by (simp add: f64_eval)

lemma literal_one_tenth: "f64_literal 0.1 = Finite (3602879701896397 / 36028797018963968)"
  by (simp add: f64_eval)

lemma pow2_pos: "0 < pow2 e"
  by (simp add: pow2_def)

lemma round_even_nonneg: "0 \<le> q \<Longrightarrow> 0 \<le> round_even q"
  by (simp add: round_even_def Let_def)

lemma f64_round_magnitude_nonneg: "0 \<le> x \<Longrightarrow> 0 \<le> f64_round_magnitude x"
  using pow2_pos [of "f64_exponent x - 52"]
  by (simp add: f64_round_magnitude_def Let_def round_even_nonneg)

lemma to_f64_nonneg: "0 \<le> x \<Longrightarrow> f64_nonneg (to_f64 False x)"
  using f64_round_magnitude_nonneg [of x]
  by (simp add: to_f64_def Let_def f64_nonneg_def f64_infinity_def f64_signed_zero_def)

lemma f64_nonneg_cases:
  "f64_nonneg a \<longleftrightarrow> a = PosInf \<or> (\<exists>x\<ge>0. a = Finite x)"
  by (cases a) (auto simp: f64_nonneg_def)

lemma f64_mul_nonneg:
  assumes "f64_nonneg a" and "0 < c"
  shows "f64_nonneg (f64_mul a (Finite c))"
proof (cases "a = PosInf")
  case True
  with assms(2) show ?thesis
    by (simp add: f64_mul_def f64_is_infinite_def f64_is_zero_def f64_infinity_def f64_nonneg_def)
next
  case False
  with assms(1) obtain x where x: "a = Finite x" "0 \<le> x"
    by (auto simp: f64_nonneg_cases)
  have "f64_mul a (Finite c) = to_f64 False (\<bar>x\<bar> * \<bar>c\<bar>)"
    using x assms(2) by (simp add: f64_mul_def f64_is_infinite_def)
  then show ?thesis by (simp add: to_f64_nonneg)
qed

lemma f64_add_nonneg:
  assumes "f64_nonneg a" and "f64_nonneg b"
  shows "f64_nonneg (f64_add a b)"
proof -
  from assms consider "a = PosInf" | "b = PosInf" "a \<noteq> PosInf"
    | x y where "a = Finite x" "0 \<le> x" "b = Finite y" "0 \<le> y"
    by (auto simp: f64_nonneg_cases)
  then show ?thesis
  proof cases
    case 1
    with assms(2) show ?thesis
      by (auto simp: f64_add_def f64_is_infinite_def f64_nonneg_def)
  next
    case 2
    with assms(1) show ?thesis
      by (auto simp: f64_add_def f64_is_infinite_def f64_nonneg_def)
  next
    case 3
    then have "f64_add a b
      = (if x + y = 0 then Finite 0 else to_f64 False (x + y))"
      by (auto simp: f64_add_def f64_is_infinite_def f64_signed_zero_def Let_def)
    with 3 show ?thesis
      using to_f64_nonneg [of "x + y"] by (simp add: f64_nonneg_def)
  qed
qed

lemma Math_round64_nonneg: "f64_nonneg a \<Longrightarrow> f64_nonneg (Math_round64 a)"
  by (cases a) (auto simp: f64_nonneg_def Math_round64_def Let_def f64_signed_zero_def)

lemma Math_min64_in_range: "f64_nonneg a \<Longrightarrow> in_range (Math_min64 (Finite 100) a)"
  by (cases a)
     (auto simp: f64_nonneg_def Math_min64_def in_range_def f64_less_eq_def f64_less_def)

text \<open>The three nested calls of \<^verbatim>\<open>computeSignalScore\<close>, by the cases of the sum.\<close>

lemma round_max_min_integer:
  "Math_min64 (Finite 100)
     (Math_max64 (Finite 0) (if n = 0 then f64_signed_zero neg else Finite (of_int n)))
   = Finite (of_int (clamp 0 100 n))"
  by (cases neg)
     (simp_all add: Math_max64_def Math_min64_def f64_less_def clamp_def f64_signed_zero_def)

lemma round_max_min:
  "Math_min64 (Finite 100) (Math_max64 (Finite 0) (Math_round64 s)) = round_and_clamp s"
proof (cases s)
  case (Finite x)
  then have "Math_round64 s
      = (if round x = 0 then f64_signed_zero (x < 0) else Finite (of_int (round x)))"
    by (simp add: Math_round64_def Let_def round_def)
  then show ?thesis
    unfolding Finite by (simp only: round_max_min_integer round_and_clamp_def f64.case)
qed (simp_all add: Math_round64_def Math_max64_def Math_min64_def f64_less_def
       round_and_clamp_def)

lemma round_and_clamp_NaN: "round_and_clamp s = NaN \<longleftrightarrow> s = NaN"
  by (cases s) (simp_all add: round_and_clamp_def)

lemma round_and_clamp_integer:
  "(\<exists>n. 0 \<le> n \<and> n \<le> 100 \<and> round_and_clamp s = Finite (of_int n)) \<longleftrightarrow> s \<noteq> NaN"
proof (cases s)
  case (Finite x)
  have "0 \<le> clamp 0 100 (round x) \<and> clamp 0 100 (round x) \<le> 100"
    by (simp add: clamp_def)
  with Finite show ?thesis by (auto simp: round_and_clamp_def)
next
  case PosInf
  have "(0::int) \<le> 100 \<and> (100::int) \<le> 100 \<and> Finite 100 = Finite (of_int 100)" by simp
  with PosInf show ?thesis unfolding round_and_clamp_def by (simp only: f64.case) blast
next
  case NegInf
  have "(0::int) \<le> 0 \<and> (0::int) \<le> 100 \<and> Finite 0 = Finite (of_int 0)" by simp
  with NegInf show ?thesis unfolding round_and_clamp_def by (simp only: f64.case) blast
next
  case NegZero
  have "(0::int) \<le> 0 \<and> (0::int) \<le> 100 \<and> Finite 0 = Finite (of_int 0)" by simp
  with NegZero show ?thesis unfolding round_and_clamp_def by (simp only: f64.case) blast
qed (simp add: round_and_clamp_def)

lemma round_and_clamp_in_range: "in_range (round_and_clamp s) \<longleftrightarrow> s \<noteq> NaN"
  by (cases s)
     (simp_all add: round_and_clamp_def in_range_def f64_less_eq_def f64_less_def clamp_def)

lemma computeSignalScore_eq:
  "computeSignalScore params = round_and_clamp (weighted_sum64 (edgeSize params) (speed params)
       (persistence params) (marketStability params) (historicalPerformance params))"
  by (simp add: computeSignalScore_def weighted_sum64_def Let_def round_max_min)

lemma gate_nonneg:
  assumes "vol \<noteq> NaN" and "\<not> f64_less vol (f64_literal 0.3)"
  shows "f64_nonneg vol"
  using assms unfolding literal_three_tenths
  by (cases vol) (auto simp: f64_less_def f64_nonneg_def)

lemma generateSignal_signalScore_in_range:
  assumes "vol \<noteq> NaN" and "is_random r1" and "is_random r2"
    and "generateSignal_signalScore vol r1 r2 = Some score"
  shows "in_range score"
proof -
  from assms(4) have gate: "\<not> f64_less vol (f64_literal 0.3)"
    by (auto simp: generateSignal_signalScore_def split: if_splits)
  from gate_nonneg [OF assms(1) gate] have vol: "f64_nonneg vol" .
  from assms(2,3) have r: "f64_nonneg r1" "f64_nonneg r2"
    by (auto simp: is_random_def f64_nonneg_def split: f64.splits)
  have two: "f64_nonneg (Finite 2)" by (simp add: f64_nonneg_def)
  have "f64_nonneg (f64_mul r1 (Finite 8))"
    by (rule f64_mul_nonneg [OF r(1)]) simp
  then have edge: "f64_nonneg (f64_add (f64_mul r1 (Finite 8)) (Finite 2))"
    using two by (rule f64_add_nonneg)
  have a: "f64_nonneg (f64_mul vol (Finite 40))"
    by (rule f64_mul_nonneg [OF vol]) simp
  have b: "f64_nonneg (f64_mul (f64_add (f64_mul r1 (Finite 8)) (Finite 2)) (Finite 5))"
    by (rule f64_mul_nonneg [OF edge]) simp
  have c: "f64_nonneg (f64_mul r2 (Finite 20))"
    by (rule f64_mul_nonneg [OF r(2)]) simp
  have "f64_nonneg (f64_add (f64_add (f64_mul vol (Finite 40))
       (f64_mul (f64_add (f64_mul r1 (Finite 8)) (Finite 2)) (Finite 5)))
       (f64_mul r2 (Finite 20)))"
    by (rule f64_add_nonneg [OF f64_add_nonneg [OF a b] c])
  from Math_min64_in_range [OF Math_round64_nonneg [OF this]] assms(4) gate
  show ?thesis by (simp add: generateSignal_signalScore_def Let_def)
qed

lemma rounding_example:
  "computeSignalScore \<lparr>edgeSize = Finite 0, speed = Finite 4, persistence = Finite 10,
       marketStability = Finite 3, historicalPerformance = Finite 2\<rparr> = Finite 3"
  unfolding computeSignalScore_def literal_one_tenth literal_two_tenths literal_three_tenths
  by (simp add: f64_eval)

text \<open>Two more records at which the double sum falls just below a half.\<close>

lemma rounding_examples:
  "computeSignalScore \<lparr>edgeSize = Finite 1, speed = Finite 2, persistence = Finite 1,
       marketStability = Finite 4, historicalPerformance = Finite 1\<rparr> = Finite 1"
  "computeSignalScore \<lparr>edgeSize = Finite 87, speed = Finite 65, persistence = Finite 63,
       marketStability = Finite 50, historicalPerformance = Finite 14\<rparr> = Finite 59"
  unfolding computeSignalScore_def literal_one_tenth literal_two_tenths literal_three_tenths
  by (simp_all add: f64_eval)

lemma example_params_score: "computeSignalScore example_params = Finite 70"
  unfolding computeSignalScore_def literal_one_tenth literal_two_tenths literal_three_tenths
    example_params_def
  by (simp add: f64_eval)

lemma example_weighted_sum64:
  "weighted_sum64 (Finite 80) (Finite 60) (Finite 55) (Finite 90) (Finite 70) = Finite 70"
  unfolding weighted_sum64_def literal_one_tenth literal_two_tenths literal_three_tenths
  by (simp add: f64_eval)

lemma example_signalScore:
  "generateSignal_signalScore (Finite 1) (Finite (1 / 2)) (Finite (1 / 4)) = Some (Finite 75)"
  unfolding generateSignal_signalScore_def literal_three_tenths
  by (simp add: f64_eval)

lemma NaN_signalScore:
  "generateSignal_signalScore NaN (Finite (1 / 2)) (Finite (1 / 4)) = Some NaN"
  unfolding generateSignal_signalScore_def literal_three_tenths
  by (simp add: f64_eval)

lemma NaN_score:
  "computeSignalScore \<lparr>edgeSize = NaN, speed = Finite 4, persistence = Finite 10,
       marketStability = Finite 3, historicalPerformance = Finite 2\<rparr> = NaN"
  by (simp add: computeSignalScore_def f64_mul_def f64_add_def Math_round64_def Math_max64_def
      Math_min64_def)

text \<open>A finite double times a weight below one half does not overflow.\<close>

lemma round_even_le: "of_int (round_even q) \<le> q + 1 / 2"
proof (cases "q - of_int \<lfloor>q\<rfloor> < 1 / 2")
  case True
  then have "round_even q = \<lfloor>q\<rfloor>"
    unfolding round_even_def Let_def by (simp only: if_True)
  then have "real_of_int (round_even q) = of_int \<lfloor>q\<rfloor>" by (simp only:)
  also have "\<dots> \<le> q" by (rule of_int_floor_le)
  also have "q \<le> q + 1 / 2" by simp
  finally show ?thesis .
next
  case False
  have "round_even q \<le> \<lfloor>q\<rfloor> + 1"
    unfolding round_even_def Let_def by (simp only: split: if_splits) simp
  then have "real_of_int (round_even q) \<le> of_int (\<lfloor>q\<rfloor> + 1)"
    by (simp only: of_int_le_iff)
  also have "\<dots> = of_int \<lfloor>q\<rfloor> + 1" by simp
  also have "\<dots> \<le> q + 1 / 2" using False by simp
  finally show ?thesis .
qed

lemma f64_exponent_up_le: "pow2 e \<le> x \<Longrightarrow> pow2 (f64_exponent_up e x) \<le> x"
proof (induction e x rule: f64_exponent_up.induct)
  case (1 e x)
  show ?case
  proof (cases "e < 1024 \<and> pow2 (e + 1) \<le> x")
    case True
    then have "f64_exponent_up e x = f64_exponent_up (e + 1) x"
      by (subst f64_exponent_up.simps) simp
    with "1.IH" True show ?thesis by simp
  next
    case False
    then have "f64_exponent_up e x = e"
      by (subst f64_exponent_up.simps) auto
    with "1.prems" show ?thesis by simp
  qed
qed

lemma f64_exponent_down_le: "f64_exponent_down e x \<le> e"
proof (induction e x rule: f64_exponent_down.induct)
  case (1 e x)
  show ?case
  proof (cases "- 1022 < e \<and> x < pow2 e")
    case True
    then have "f64_exponent_down e x = f64_exponent_down (e - 1) x"
      by (subst f64_exponent_down.simps) simp
    with "1.IH" True show ?thesis by simp
  next
    case False
    then have "f64_exponent_down e x = e"
      by (subst f64_exponent_down.simps) auto
    then show ?thesis by simp
  qed
qed

lemma pow2_powi: "pow2 e = 2 powi e"
  by (simp add: pow2_def power_int_def power_one_over)

lemma pow2_mono: "a \<le> b \<Longrightarrow> pow2 a \<le> pow2 b"
  unfolding pow2_powi by (rule power_int_increasing) simp_all

lemma pow2_diff: "pow2 (a - b) = pow2 a / pow2 b"
  unfolding pow2_powi by (simp add: power_int_diff)

lemma f64_round_magnitude_le:
  assumes "0 < x"
  shows "f64_round_magnitude x \<le> x + pow2 (f64_exponent x - 53)"
proof -
  define q where "q = pow2 (f64_exponent x - 52)"
  have q: "0 < q" unfolding q_def by (rule pow2_pos)
  have "of_int (round_even (x / q)) * q \<le> (x / q + 1 / 2) * q"
    using round_even_le [of "x / q"] q by (simp only: mult_le_cancel_right_pos)
  also have "\<dots> = x + q / 2" using q by (simp add: field_simps)
  also have "q / 2 = pow2 (f64_exponent x - 53)"
    unfolding q_def pow2_diff by (simp add: pow2_def)
  finally show ?thesis using assms by (simp add: f64_round_magnitude_def Let_def q_def)
qed

lemma f64_round_magnitude_less:
  assumes "0 \<le> x" and "x < pow2 1023"
  shows "f64_round_magnitude x < pow2 1024"
proof (cases "x = 0")
  case True
  then show ?thesis using pow2_pos [of 1024] by (simp add: f64_round_magnitude_def)
next
  case False
  with assms have pos: "0 < x" by simp
  note bound = f64_round_magnitude_le [OF pos]
  show ?thesis
  proof (cases "1 \<le> x")
    case True
    then have "pow2 0 \<le> x" by (simp add: pow2_def)
    from f64_exponent_up_le [OF this] True have "pow2 (f64_exponent x) \<le> x"
      by (simp add: f64_exponent_def)
    moreover have "pow2 (f64_exponent x - 53) = pow2 (f64_exponent x) / pow2 53"
      by (rule pow2_diff)
    ultimately have "pow2 (f64_exponent x - 53) \<le> x / pow2 53"
      using pow2_pos [of 53] by (simp add: divide_right_mono)
    with bound have "f64_round_magnitude x \<le> x + x / pow2 53" by simp
    also have "\<dots> \<le> x * 2" using pos by (simp add: pow2_def)
    also have "\<dots> < pow2 1023 * 2" using assms(2) by simp
    also have "\<dots> = pow2 1024" by (simp add: pow2_def)
    finally show ?thesis .
  next
    case False
    then have "f64_exponent x \<le> - 1"
      using f64_exponent_down_le [of "- 1" x] by (simp add: f64_exponent_def)
    then have "pow2 (f64_exponent x - 53) \<le> pow2 (- 54)"
      by (intro pow2_mono) simp
    also have "\<dots> \<le> 1" by (simp add: pow2_def)
    finally have "f64_round_magnitude x \<le> x + 1" using bound by simp
    also have "\<dots> < 2" using False by simp
    also have "\<dots> \<le> pow2 1024" by (simp add: pow2_def)
    finally show ?thesis .
  qed
qed

lemma to_f64_finite:
  assumes "0 \<le> x" and "x < pow2 1023"
  shows "f64_finite (to_f64 neg x)"
  using f64_round_magnitude_less [OF assms] f64_round_magnitude_nonneg [OF assms(1)]
  by (simp add: to_f64_def Let_def f64_finite_def f64_signed_zero_def)

lemma f64_mul_weight_finite:
  assumes "f64_finite a" and "0 < c" and "c \<le> 1 / 2"
  shows "f64_finite (f64_mul a (Finite c))"
proof -
  have "\<bar>f64_real a\<bar> < pow2 1024"
    using assms(1) pow2_pos [of 1024] by (cases a) (simp_all add: f64_finite_def)
  then have "\<bar>f64_real a\<bar> * c \<le> \<bar>f64_real a\<bar> * (1 / 2)"
    using assms(3) by (intro mult_left_mono) simp_all
  also have "\<dots> < pow2 1024 * (1 / 2)"
    using \<open>\<bar>f64_real a\<bar> < pow2 1024\<close> by simp
  also have "\<dots> = pow2 1023" by (simp add: pow2_def)
  finally have small: "\<bar>f64_real a\<bar> * \<bar>c\<bar> < pow2 1023" using assms(2) by simp
  have "0 \<le> \<bar>f64_real a\<bar> * \<bar>c\<bar>" by simp
  from to_f64_finite [OF this small]
  have "f64_finite (to_f64 (f64_negative a \<noteq> f64_negative (Finite c)) (\<bar>f64_real a\<bar> * \<bar>c\<bar>))" .
  moreover have "a \<noteq> NaN" "\<not> f64_is_infinite a"
    using assms(1) by (auto simp: f64_finite_def f64_is_infinite_def)
  ultimately show ?thesis
    by (simp add: f64_mul_def f64_is_infinite_def)
qed

lemma f64_add_not_NaN:
  assumes "a \<noteq> NaN" and "f64_finite b"
  shows "f64_add a b \<noteq> NaN"
proof -
  from assms(2) have b: "b \<noteq> NaN" "\<not> f64_is_infinite b"
    by (auto simp: f64_finite_def f64_is_infinite_def)
  show ?thesis
  proof (cases "f64_is_infinite a")
    case True
    with assms(1) b show ?thesis by (simp add: f64_add_def)
  next
    case False
    with assms(1) b show ?thesis
      by (simp add: f64_add_def Let_def f64_signed_zero_def to_f64_def f64_infinity_def)
  qed
qed

lemma weighted_sum64_finite:
  assumes "f64_finite e" "f64_finite s" "f64_finite p" "f64_finite m" "f64_finite h"
  shows "weighted_sum64 e s p m h \<noteq> NaN"
proof -
  have w: "f64_finite (f64_mul a (f64_literal 0.3))" "f64_finite (f64_mul a (f64_literal 0.2))"
    "f64_finite (f64_mul a (f64_literal 0.1))" if "f64_finite a" for a
    unfolding literal_one_tenth literal_two_tenths literal_three_tenths
    by (rule f64_mul_weight_finite [OF that]; simp)+
  have "f64_mul e (f64_literal 0.3) \<noteq> NaN"
    using w(1) [OF assms(1)] by (auto simp: f64_finite_def)
  then show ?thesis
    unfolding weighted_sum64_def
    by (intro f64_add_not_NaN w assms)
qed

section \<open>Properties of the scoring formula\<close>

text \<open>
  C1, as the specification states it: for every input record,
  \<^verbatim>\<open>computeSignalScore\<close> returns the weighted sum of the five fields, rounded and
  clamped into the range from 0 to 100. It does not hold. The code computes the sum in
  double precision: at the fields 0, 4, 10, 3, 2 the weighted sum is 3.5, which rounds
  to 4, and the code returns 3, its sum being the double below 3.5. And where a field is
  \<^verbatim>\<open>NaN\<close> the code returns \<^verbatim>\<open>NaN\<close>, which is not in the range.
\<close>

theorem computeSignalScore_not_exact:
  "computeSignalScore \<lparr>edgeSize = Finite 0, speed = Finite 4, persistence = Finite 10,
       marketStability = Finite 3, historicalPerformance = Finite 2\<rparr> = Finite 3
   \<and> clamp 0 100 (round (weighted_sum 0 4 10 3 2)) = 4
   \<and> computeSignalScore \<lparr>edgeSize = NaN, speed = Finite 4, persistence = Finite 10,
       marketStability = Finite 3, historicalPerformance = Finite 2\<rparr> = NaN
   \<and> \<not> in_range NaN"
proof -
  have "clamp 0 100 (round (weighted_sum 0 4 10 3 2)) = 4"
    by (simp add: weighted_sum_def clamp_def round_def)
  moreover have "\<not> in_range NaN"
    by (simp add: in_range_def f64_less_eq_def)
  ultimately show ?thesis
    using rounding_example NaN_score by simp
qed

text \<open>
  C1, amended: for every input record, \<^verbatim>\<open>computeSignalScore\<close> returns the
  weighted sum of the five fields as double precision computes it (the weights are the
  doubles nearest to 0.3, 0.2, 0.2, 0.1 and 0.2, every product and every sum from left to
  right is rounded), rounded to the nearest integer, a tie going up, and clamped into
  the range from 0 to 100. The result is \<^verbatim>\<open>NaN\<close> exactly when that sum is, and is
  an integer from 0 to 100 exactly when it is not.
\<close>

theorem computeSignalScore_weighted_sum:
  "computeSignalScore params =
     round_and_clamp (weighted_sum64 (edgeSize params) (speed params) (persistence params)
       (marketStability params) (historicalPerformance params))
   \<and> (computeSignalScore params = NaN) =
       (weighted_sum64 (edgeSize params) (speed params) (persistence params)
          (marketStability params) (historicalPerformance params) = NaN)
   \<and> (\<exists>n. 0 \<le> n \<and> n \<le> 100 \<and> computeSignalScore params = Finite (of_int n)) =
       (weighted_sum64 (edgeSize params) (speed params) (persistence params)
          (marketStability params) (historicalPerformance params) \<noteq> NaN)"
  unfolding computeSignalScore_eq
  by (simp only: round_and_clamp_NaN round_and_clamp_integer simp_thms)

section \<open>Properties of signal generation\<close>

lemma Math_random_range: "0 \<le> fst (Math_random w) \<and> fst (Math_random w) < 1"
  using number_of [of "random_src w (random_calls w)"] by (simp add: Math_random_def)

lemma pick_in_set:
  assumes "xs \<noteq> []" and "0 \<le> r" and "r < 1"
  shows "pick xs r \<in> set xs"
proof -
  have "0 < real (length xs)" using assms(1) by simp
  then have "r * real (length xs) < real (length xs)" using assms(3) by simp
  then have "\<lfloor>r * real (length xs)\<rfloor> < int (length xs)" by linarith
  moreover have "0 \<le> \<lfloor>r * real (length xs)\<rfloor>" using assms(2) by simp
  ultimately have "nat \<lfloor>r * real (length xs)\<rfloor> < length xs" by (simp add: nat_less_iff)
  then show ?thesis by (simp add: pick_def Math_floor_def)
qed

lemma generateSignal_None:
  "MarketState.volatility m < 0.3 \<Longrightarrow> fst (generateSignal m w) = None"
  by (simp add: generateSignal_def Let_def split_beta)

text \<open>What a generated signal holds, in terms of the random draws it was made from.\<close>

lemma generateSignal_Some:
  assumes "\<not> MarketState.volatility m < 0.3"
  shows "\<exists>s r1 r2 r8 r9. fst (generateSignal m w) = Some s
     \<and> 0 \<le> r1 \<and> r1 < 1 \<and> 0 \<le> r2 \<and> r2 < 1 \<and> 0 \<le> r8 \<and> r8 < 1 \<and> 0 \<le> r9 \<and> r9 < 1
     \<and> signalScore s = score_of m r1 r2
     \<and> confidence s = (if signalScore s > 75 then High
                       else if signalScore s > 55 then Medium else Low)
     \<and> trigger s = pick triggers r8 \<and> explanation s = pick explanations r9"
  using assms
  apply (simp add: generateSignal_def Let_def split_beta score_of_def del: ex_simps)
  apply (intro exI conjI)
  apply (rule refl Math_random_range [THEN conjunct1] Math_random_range [THEN conjunct2])+
  done

lemma example_generateSignal:
  "fst (generateSignal example_market example_world) = Some example_signal"
  by code_simp


text \<open>
  C2: the confidence of every signal that \<^verbatim>\<open>generateSignal\<close> produces is the bucket
  of its score and of nothing else: high above 75, medium above 55 and up to 75, low
  otherwise.
\<close>

theorem generateSignal_confidence:
  assumes "fst (generateSignal m w) = Some s"
  shows "confidence s = confidence_bucket (signalScore s)"
proof -
  have "\<not> MarketState.volatility m < 0.3"
    using assms generateSignal_None [of m w] by auto
  from generateSignal_Some [OF this, of w] assms show ?thesis
    by (auto simp: confidence_bucket_def)
qed

theorem generateSignal_confidence_witness:
  "fst (generateSignal example_market example_world) = Some example_signal
   \<and> signalScore example_signal = 75 \<and> confidence example_signal = Medium
   \<and> confidence_bucket 75 = Medium"
  using generateSignal_confidence [OF example_generateSignal] example_generateSignal
  by (simp add: example_signal_def confidence_bucket_def)

text \<open>
  C4, as the specification states it: the score of every signal of
  \<^verbatim>\<open>generateSignal\<close> and the result of \<^verbatim>\<open>computeSignalScore\<close> at every input
  lie in the range from 0 to 100. It does not hold where a number is \<^verbatim>\<open>NaN\<close>: a
  field that is \<^verbatim>\<open>NaN\<close> makes the result of \<^verbatim>\<open>computeSignalScore\<close>
  \<^verbatim>\<open>NaN\<close>, and a volatility that is \<^verbatim>\<open>NaN\<close> is not below 0.3, passes the
  gate of \<^verbatim>\<open>generateSignal\<close> and makes the score \<^verbatim>\<open>NaN\<close>; no comparison
  with \<^verbatim>\<open>NaN\<close> holds.
\<close>

theorem signalScore_NaN:
  "\<not> in_range (computeSignalScore \<lparr>edgeSize = NaN, speed = Finite 4, persistence = Finite 10,
       marketStability = Finite 3, historicalPerformance = Finite 2\<rparr>)
   \<and> generateSignal_signalScore NaN (Finite (1 / 2)) (Finite (1 / 4)) = Some NaN
   \<and> \<not> f64_less_eq (Finite 0) NaN \<and> \<not> f64_less_eq NaN (Finite 100)"
  using NaN_score NaN_signalScore
  by (simp add: in_range_def f64_less_eq_def)

text \<open>
  C4, amended: the score lies in the range from 0 to 100 where no \<^verbatim>\<open>NaN\<close> is
  involved. The result of \<^verbatim>\<open>computeSignalScore\<close> is in the range exactly when the
  weighted sum that double precision computes is not \<^verbatim>\<open>NaN\<close>, which is so for
  every record of finite numbers. The score of a signal of \<^verbatim>\<open>generateSignal\<close>,
  which clamps from above only, is in the range for every volatility that is not
  \<^verbatim>\<open>NaN\<close> and all draws of \<^verbatim>\<open>Math.random()\<close>: the volatility is at least
  0.3, the draws are not negative, and no product or sum of such numbers is negative or
  \<^verbatim>\<open>NaN\<close>. The same holds of the signal of the function in exact arithmetic.
\<close>

theorem signalScore_range:
  "(in_range (computeSignalScore params) =
      (weighted_sum64 (edgeSize params) (speed params) (persistence params)
         (marketStability params) (historicalPerformance params) \<noteq> NaN))
   \<and> (f64_finite (edgeSize params) \<and> f64_finite (speed params)
        \<and> f64_finite (persistence params) \<and> f64_finite (marketStability params)
        \<and> f64_finite (historicalPerformance params)
        \<longrightarrow> in_range (computeSignalScore params))
   \<and> (vol \<noteq> NaN \<and> is_random r1 \<and> is_random r2
        \<and> generateSignal_signalScore vol r1 r2 = Some score
        \<longrightarrow> in_range score)
   \<and> (fst (generateSignal m w) = Some s \<longrightarrow> 0 \<le> signalScore s \<and> signalScore s \<le> 100)"
proof (intro conjI impI)
  show range: "in_range (computeSignalScore params) =
      (weighted_sum64 (edgeSize params) (speed params) (persistence params)
         (marketStability params) (historicalPerformance params) \<noteq> NaN)"
    unfolding computeSignalScore_eq by (rule round_and_clamp_in_range)
  assume "f64_finite (edgeSize params) \<and> f64_finite (speed params)
        \<and> f64_finite (persistence params) \<and> f64_finite (marketStability params)
        \<and> f64_finite (historicalPerformance params)"
  then have "weighted_sum64 (edgeSize params) (speed params) (persistence params)
         (marketStability params) (historicalPerformance params) \<noteq> NaN"
    by (intro weighted_sum64_finite) simp_all
  with range show "in_range (computeSignalScore params)" by simp
next
  assume "vol \<noteq> NaN \<and> is_random r1 \<and> is_random r2
        \<and> generateSignal_signalScore vol r1 r2 = Some score"
  then show "in_range score"
    using generateSignal_signalScore_in_range [of vol r1 r2 score] by simp
next
  assume s: "fst (generateSignal m w) = Some s"
  then have vol: "\<not> MarketState.volatility m < 0.3"
    using generateSignal_None [of m w] by auto
  from generateSignal_Some [OF vol, of w] s obtain r1 r2
    where r: "0 \<le> r1" "0 \<le> r2" and score: "signalScore s = score_of m r1 r2"
    by auto
  have "0 \<le> MarketState.volatility m * 40 + (r1 * 8 + 2) * 5 + r2 * 20 + 1 / 2"
    using vol r by simp
  then have "0 \<le> \<lfloor>MarketState.volatility m * 40 + (r1 * 8 + 2) * 5 + r2 * 20 + 1 / 2\<rfloor>"
    by simp
  then show "0 \<le> signalScore s"
    by (simp add: score score_of_def Math_min_def Math_round_def)
  show "signalScore s \<le> 100"
    by (simp add: score score_of_def Math_min_def)
qed

theorem signalScore_range_witness:
  "computeSignalScore example_params = Finite 70 \<and> in_range (Finite 70)
   \<and> f64_finite (Finite 80) \<and> f64_finite (Finite 60) \<and> f64_finite (Finite 55)
   \<and> f64_finite (Finite 90) \<and> f64_finite (Finite 70)
   \<and> generateSignal_signalScore (Finite 1) (Finite (1 / 2)) (Finite (1 / 4)) = Some (Finite 75)
   \<and> is_random (Finite (1 / 2)) \<and> is_random (Finite (1 / 4)) \<and> in_range (Finite 75)
   \<and> fst (generateSignal example_market example_world) = Some example_signal
   \<and> 0 \<le> signalScore example_signal \<and> signalScore example_signal \<le> 100"
proof -
  have finite: "f64_finite (Finite 80)" "f64_finite (Finite 60)" "f64_finite (Finite 55)"
    "f64_finite (Finite 90)" "f64_finite (Finite 70)"
    by (simp_all add: f64_finite_def pow2_def)
  have random: "is_random (Finite (1 / 2))" "is_random (Finite (1 / 4))"
    by (simp_all add: is_random_def)
  note t = signalScore_range [of example_params "Finite 1" "Finite (1 / 2)" "Finite (1 / 4)"
      "Finite 75" example_market example_world example_signal]
  have "f64_finite (edgeSize example_params) \<and> f64_finite (speed example_params)
      \<and> f64_finite (persistence example_params) \<and> f64_finite (marketStability example_params)
      \<and> f64_finite (historicalPerformance example_params)"
    using finite by (simp add: example_params_def)
  with t have "in_range (computeSignalScore example_params)" by blast
  moreover from t random example_signalScore have "in_range (Finite 75)" by simp
  moreover from t example_generateSignal
  have "0 \<le> signalScore example_signal \<and> signalScore example_signal \<le> 100" by simp
  ultimately show ?thesis
    using finite random example_signalScore example_generateSignal example_params_score
    by simp
qed

text \<open>
  C8: the trigger of every generated signal is one of the five fixed triggers, and its
  explanation one of the five fixed explanations.
\<close>

theorem generateSignal_fixed_texts:
  assumes "fst (generateSignal m w) = Some s"
  shows "trigger s \<in> set triggers \<and> explanation s \<in> set explanations
         \<and> length triggers = 5 \<and> length explanations = 5"
proof -
  have "\<not> MarketState.volatility m < 0.3"
    using assms generateSignal_None [of m w] by auto
  from generateSignal_Some [OF this, of w] assms obtain r8 r9
    where r: "0 \<le> r8" "r8 < 1" "0 \<le> r9" "r9 < 1"
      and t: "trigger s = pick triggers r8" and e: "explanation s = pick explanations r9"
    by auto
  have "triggers \<noteq> []" and "explanations \<noteq> []"
    by (simp_all add: triggers_def explanations_def)
  then have "trigger s \<in> set triggers" and "explanation s \<in> set explanations"
    using r t e by (simp_all add: pick_in_set)
  moreover have "length triggers = 5" and "length explanations = 5"
    by (simp_all add: triggers_def explanations_def)
  ultimately show ?thesis by simp
qed

theorem generateSignal_fixed_texts_witness:
  "fst (generateSignal example_market example_world) = Some example_signal
   \<and> trigger example_signal = triggers ! 2 \<and> explanation example_signal = explanations ! 2
   \<and> trigger example_signal \<in> set triggers \<and> explanation example_signal \<in> set explanations"
  using generateSignal_fixed_texts [OF example_generateSignal] example_generateSignal
  by (simp add: example_signal_def triggers_def explanations_def)

section \<open>Properties of the state and the store\<close>

subsection \<open>Printing numbers\<close>

lemma show_nat_not_Nil: "show_nat n \<noteq> []"
  by (subst show_nat.simps) simp

lemma digit_char_inj:
  assumes "a < 10" and "b < 10" and "digit_char a = digit_char b"
  shows "a = b"
proof -
  have "distinct ''0123456789''" by simp
  moreover have "a < length ''0123456789''" and "b < length ''0123456789''"
    using assms by simp_all
  ultimately show ?thesis
    using assms(3) unfolding digit_char_def by (simp only: nth_eq_iff_index_eq)
qed

lemma show_nat_inj: "show_nat m = show_nat n \<Longrightarrow> m = n"
proof (induction m arbitrary: n rule: show_nat.induct)
  case (1 m)
  show ?case
  proof (cases "m < 10")
    case small_m: True
    show ?thesis
    proof (cases "n < 10")
      case True
      with small_m "1.prems" show ?thesis
        by (simp add: show_nat.simps [of m] show_nat.simps [of n] digit_char_inj)
    next
      case False
      with small_m "1.prems" show_nat_not_Nil [of "n div 10"] show ?thesis
        by (simp add: show_nat.simps [of m] show_nat.simps [of n])
    qed
  next
    case big_m: False
    show ?thesis
    proof (cases "n < 10")
      case True
      with big_m "1.prems" show_nat_not_Nil [of "m div 10"] show ?thesis
        by (simp add: show_nat.simps [of m] show_nat.simps [of n])
    next
      case False
      with big_m "1.prems"
      have eq: "show_nat (m div 10) = show_nat (n div 10)"
        and d: "digit_char (m mod 10) = digit_char (n mod 10)"
        by (simp_all add: show_nat.simps [of m] show_nat.simps [of n])
      from "1.IH" [OF big_m eq] have "m div 10 = n div 10" .
      moreover from d have "m mod 10 = n mod 10"
        by (intro digit_char_inj) simp_all
      ultimately show ?thesis
        by (metis div_mult_mod_eq)
    qed
  qed
qed

subsection \<open>The state\<close>

lemma kv_get_kv_set: "kv_get k' (kv_set k v w) = (if k' = k then Some v else kv_get k' w)"
  by (simp add: kv_get_def kv_set_def DAList.lookup_update)

lemma kv_set_sources [simp]:
  "random_src (kv_set k v w) = random_src w" "random_calls (kv_set k v w) = random_calls w"
  "clock_src (kv_set k v w) = clock_src w" "clock_calls (kv_set k v w) = clock_calls w"
  "toString36 (kv_set k v w) = toString36 w"
  by (simp_all add: kv_set_def)

lemma Math_random_frame [simp]:
  "kv (snd (Math_random w)) = kv w" "random_src (snd (Math_random w)) = random_src w"
  "clock_src (snd (Math_random w)) = clock_src w" "toString36 (snd (Math_random w)) = toString36 w"
  "clock_calls (snd (Math_random w)) = clock_calls w"
  "random_calls (snd (Math_random w)) = Suc (random_calls w)"
  by (simp_all add: Math_random_def)

lemma Date_now_frame [simp]:
  "kv (snd (Date_now w)) = kv w" "random_src (snd (Date_now w)) = random_src w"
  "clock_src (snd (Date_now w)) = clock_src w" "toString36 (snd (Date_now w)) = toString36 w"
  "random_calls (snd (Date_now w)) = random_calls w"
  "clock_calls (snd (Date_now w)) = Suc (clock_calls w)"
  by (simp_all add: Date_now_def)

lemma kv_get_cong: "kv w = kv w' \<Longrightarrow> kv_get k w = kv_get k w'"
  by (simp add: kv_get_def)

lemma generateSignal_frame:
  "kv (snd (generateSignal m w)) = kv w \<and> random_src (snd (generateSignal m w)) = random_src w
   \<and> toString36 (snd (generateSignal m w)) = toString36 w
   \<and> clock_src (snd (generateSignal m w)) = clock_src w"
  by (simp add: generateSignal_def Let_def split_beta)

lemma redraw_team2_frame:
  assumes "redraw_team2 ts t1 t2 w = Some y"
  shows "kv (snd y) = kv w \<and> random_src (snd y) = random_src w
     \<and> toString36 (snd y) = toString36 w \<and> clock_src (snd y) = clock_src w"
  using assms
proof (induction rule: redraw_team2.raw_induct [rotated 1, consumes 1])
  case (1 redraw ts t1 t2 w y)
  show ?case
  proof (cases "t2 = t1")
    case True
    with "1.hyps" have "redraw ts t1 (pick ts (fst (Math_random w))) (snd (Math_random w)) = Some y"
      by simp
    from "1.IH" [OF this] show ?thesis by simp
  next
    case False
    with "1.hyps" show ?thesis by auto
  qed
qed

subsection \<open>The loop of the mock markets\<close>

lemma new_market_Inr:
  assumes "new_market i w = Inr (m, w')"
  shows "marketId m = ''market-'' @ show_nat i
     \<and> 0 \<le> MarketState.volatility m \<and> MarketState.volatility m < 1
     \<and> kv w' = kv w \<and> random_src w' = random_src w \<and> toString36 w' = toString36 w
     \<and> clock_src w' = clock_src w"
proof -
  from assms show ?thesis
    unfolding new_market_def Let_def split_beta
    by (auto split: option.splits dest!: redraw_team2_frame
        simp: Math_random_range)
qed

lemma market_key_inj: "market_key i = market_key j \<Longrightarrow> i = j"
  by (simp add: market_key_def show_nat_inj)

lemma markets_loop_Inr:
  assumes "markets_loop i ms w = Inr (ms', w')" and "i \<le> 25"
  shows "\<exists>new. ms' = ms @ new \<and> length new = 25 - i
     \<and> (\<forall>n<25 - i. marketId (new ! n) = ''market-'' @ show_nat (i + n)
            \<and> 0 \<le> MarketState.volatility (new ! n) \<and> MarketState.volatility (new ! n) < 1
            \<and> kv_get (market_key (i + n)) w' = Some (MarketJSON (new ! n)))
     \<and> (\<forall>k. (\<forall>n<25 - i. k \<noteq> market_key (i + n)) \<longrightarrow> kv_get k w' = kv_get k w)
     \<and> random_src w' = random_src w \<and> toString36 w' = toString36 w
     \<and> clock_src w' = clock_src w"
  using assms
proof (induction i ms w rule: markets_loop.induct)
  case (1 i ms w)
  show ?case
  proof (cases "i < 25")
    case False
    with "1.prems" have "i = 25" by simp
    with "1.prems" show ?thesis
      by (simp add: markets_loop.simps [of 25])
  next
    case True
    from "1.prems"(1) True obtain m w1 where nm: "new_market i w = Inr (m, w1)"
      and rest: "markets_loop (Suc i) (ms @ [m])
                   (kv_set (''market:'' @ marketId m) (MarketJSON m) w1) = Inr (ms', w')"
      by (auto simp: markets_loop.simps [of i] split: sum.splits)
    define w2 where "w2 = kv_set (''market:'' @ marketId m) (MarketJSON m) w1"
    note m = new_market_Inr [OF nm]
    have key: "''market:'' @ marketId m = market_key i"
      using m by (simp add: market_key_def)
    have w2: "w2 = kv_set (market_key i) (MarketJSON m) w1"
      unfolding w2_def key ..
    from "1.IH" [OF True nm refl rest] True
    obtain new where new: "ms' = (ms @ [m]) @ new" "length new = 25 - Suc i"
      and each: "\<forall>n<25 - Suc i. marketId (new ! n) = ''market-'' @ show_nat (Suc i + n)
            \<and> 0 \<le> MarketState.volatility (new ! n) \<and> MarketState.volatility (new ! n) < 1
            \<and> kv_get (market_key (Suc i + n)) w' = Some (MarketJSON (new ! n))"
      and frame: "\<forall>k. (\<forall>n<25 - Suc i. k \<noteq> market_key (Suc i + n)) \<longrightarrow> kv_get k w' = kv_get k w2"
      and src: "random_src w' = random_src w2" "toString36 w' = toString36 w2"
        "clock_src w' = clock_src w2"
      unfolding w2_def by auto
    have here: "kv_get (market_key i) w' = Some (MarketJSON m)"
    proof -
      have "\<forall>n<25 - Suc i. market_key i \<noteq> market_key (Suc i + n)"
        by (auto dest: market_key_inj)
      with frame have "kv_get (market_key i) w' = kv_get (market_key i) w2" by blast
      then show ?thesis by (simp add: w2 kv_get_kv_set)
    qed
    have A: "ms' = ms @ (m # new)" using new by simp
    have B: "length (m # new) = 25 - i" using new True by simp
    have C: "\<forall>n<25 - i. marketId ((m # new) ! n) = ''market-'' @ show_nat (i + n)
            \<and> 0 \<le> MarketState.volatility ((m # new) ! n)
            \<and> MarketState.volatility ((m # new) ! n) < 1
            \<and> kv_get (market_key (i + n)) w' = Some (MarketJSON ((m # new) ! n))"
    proof (intro allI impI)
      fix n assume n: "n < 25 - i"
      show "marketId ((m # new) ! n) = ''market-'' @ show_nat (i + n)
            \<and> 0 \<le> MarketState.volatility ((m # new) ! n)
            \<and> MarketState.volatility ((m # new) ! n) < 1
            \<and> kv_get (market_key (i + n)) w' = Some (MarketJSON ((m # new) ! n))"
      proof (cases n)
        case 0
        with m here show ?thesis by simp
      next
        case (Suc n')
        with n have "n' < 25 - Suc i" by simp
        with each Suc show ?thesis by simp
      qed
    qed
    have D: "\<forall>k. (\<forall>n<25 - i. k \<noteq> market_key (i + n)) \<longrightarrow> kv_get k w' = kv_get k w"
    proof (intro allI impI)
      fix k assume k: "\<forall>n<25 - i. k \<noteq> market_key (i + n)"
      from k True have "k \<noteq> market_key i" by (metis add.right_neutral zero_less_diff)
      moreover have "\<forall>n<25 - Suc i. k \<noteq> market_key (Suc i + n)"
      proof (intro allI impI)
        fix n assume "n < 25 - Suc i"
        then have "Suc n < 25 - i" by simp
        with k have "k \<noteq> market_key (i + Suc n)" by blast
        then show "k \<noteq> market_key (Suc i + n)" by simp
      qed
      ultimately have "kv_get k w' = kv_get k w1"
        using frame by (simp add: w2 kv_get_kv_set)
      also have "\<dots> = kv_get k w" using m by (simp add: kv_get_def)
      finally show "kv_get k w' = kv_get k w" .
    qed
    have E: "random_src w' = random_src w \<and> toString36 w' = toString36 w
        \<and> clock_src w' = clock_src w"
      using src m by (simp add: w2_def)
    from A B C D E show ?thesis by blast
  qed
qed

subsection \<open>The loop of the active signals\<close>

lemma generateSignal_id:
  assumes "fst (generateSignal m w) = Some s"
  shows "\<exists>t n. id_signal s
           = ''signal-'' @ show_int t @ ''-'' @ substr (toString36 w (number_of (random_src w n))) 2 9"
proof -
  have "\<not> MarketState.volatility m < 0.3"
    using assms generateSignal_None [of m w] by auto
  with assms show ?thesis
    apply (simp add: generateSignal_def Let_def split_beta Math_random_def del: ex_simps)
    apply (erule subst)
    apply (simp del: ex_simps)
    apply (intro exI)
    apply (rule refl)
    done
qed

lemma signal_key_inj: "signal_key a = signal_key b \<Longrightarrow> id_signal a = id_signal b"
  by (simp add: signal_key_def)

lemma signals_loop_result:
  assumes "signals_loop bound i ms sigs w = (sigs', w')"
  shows "\<exists>new. sigs' = sigs @ new
     \<and> (\<forall>k. kv_get k w' = kv_get k w
            \<or> (\<exists>s\<in>set new. k = signal_key s \<and> kv_get k w' = Some (SignalJSON s)))
     \<and> (\<forall>s\<in>set new. \<exists>s'\<in>set new. id_signal s' = id_signal s
            \<and> kv_get (signal_key s) w' = Some (SignalJSON s'))
     \<and> (\<forall>s\<in>set new. \<exists>m\<in>set ms. \<exists>w0. fst (generateSignal m w0) = Some s
            \<and> random_src w0 = random_src w \<and> toString36 w0 = toString36 w)
     \<and> random_src w' = random_src w \<and> toString36 w' = toString36 w
     \<and> clock_src w' = clock_src w"
  using assms
proof (induction bound i ms sigs w rule: signals_loop.induct)
  case (1 bound i signals w)
  then show ?case by simp
next
  case (2 bound i m rest sigs w)
  show ?case
  proof (cases "real i < bound")
    case False
    with "2.prems" show ?thesis by simp
  next
    case True
    obtain r w1 where gen: "generateSignal m w = (r, w1)" by (cases "generateSignal m w")
    from generateSignal_frame [of m w] gen
    have w1: "kv w1 = kv w" "random_src w1 = random_src w" "toString36 w1 = toString36 w"
      "clock_src w1 = clock_src w"
      by simp_all
    show ?thesis
    proof (cases r)
      case None
      with "2.prems" True gen have "signals_loop bound (Suc i) rest sigs w1 = (sigs', w')"
        by simp
      from "2.IH"(1) [OF True gen [symmetric, unfolded None] _ this] 
      obtain new where new: "sigs' = sigs @ new"
        and keys: "\<forall>k. kv_get k w' = kv_get k w1
            \<or> (\<exists>s\<in>set new. k = signal_key s \<and> kv_get k w' = Some (SignalJSON s))"
        and stored: "\<forall>s\<in>set new. \<exists>s'\<in>set new. id_signal s' = id_signal s
            \<and> kv_get (signal_key s) w' = Some (SignalJSON s')"
        and made: "\<forall>s\<in>set new. \<exists>m\<in>set rest. \<exists>w0. fst (generateSignal m w0) = Some s
            \<and> random_src w0 = random_src w1 \<and> toString36 w0 = toString36 w1"
        and src: "random_src w' = random_src w1" "toString36 w' = toString36 w1"
          "clock_src w' = clock_src w1"
        by auto
      have "\<forall>k. kv_get k w' = kv_get k w
            \<or> (\<exists>s\<in>set new. k = signal_key s \<and> kv_get k w' = Some (SignalJSON s))"
        using keys w1(1) by (simp add: kv_get_def)
      moreover have "\<forall>s\<in>set new. \<exists>m\<in>set (m # rest). \<exists>w0. fst (generateSignal m w0) = Some s
            \<and> random_src w0 = random_src w \<and> toString36 w0 = toString36 w"
        using made w1 by auto
      ultimately show ?thesis using new stored src w1 by auto
    next
      case (Some s)
      define w2 where "w2 = kv_set (signal_key s) (SignalJSON s) w1"
      from "2.prems" True gen Some
      have "signals_loop bound (Suc i) rest (sigs @ [s]) w2 = (sigs', w')"
        by (simp add: w2_def signal_key_def)
      from "2.IH"(2) [OF True gen [symmetric, unfolded Some] _ this [unfolded w2_def signal_key_def]]
      obtain new where new: "sigs' = (sigs @ [s]) @ new"
        and keys: "\<forall>k. kv_get k w' = kv_get k w2
            \<or> (\<exists>s\<in>set new. k = signal_key s \<and> kv_get k w' = Some (SignalJSON s))"
        and stored: "\<forall>s\<in>set new. \<exists>s'\<in>set new. id_signal s' = id_signal s
            \<and> kv_get (signal_key s) w' = Some (SignalJSON s')"
        and made: "\<forall>s\<in>set new. \<exists>m\<in>set rest. \<exists>w0. fst (generateSignal m w0) = Some s
            \<and> random_src w0 = random_src w2 \<and> toString36 w0 = toString36 w2"
        and src: "random_src w' = random_src w2" "toString36 w' = toString36 w2"
          "clock_src w' = clock_src w2"
        unfolding w2_def signal_key_def by auto
      have w2: "random_src w2 = random_src w" "toString36 w2 = toString36 w"
        "clock_src w2 = clock_src w"
        using w1 by (simp_all add: w2_def)
      have get2: "kv_get k w2 = (if k = signal_key s then Some (SignalJSON s) else kv_get k w)" for k
        using w1(1) by (simp add: w2_def kv_get_kv_set) (simp add: kv_get_def)
      have A: "sigs' = sigs @ (s # new)" using new by simp
      have B: "\<forall>k. kv_get k w' = kv_get k w
            \<or> (\<exists>x\<in>set (s # new). k = signal_key x \<and> kv_get k w' = Some (SignalJSON x))"
      proof
        fix k
        from keys have "kv_get k w' = kv_get k w2
            \<or> (\<exists>x\<in>set new. k = signal_key x \<and> kv_get k w' = Some (SignalJSON x))" ..
        then show "kv_get k w' = kv_get k w
            \<or> (\<exists>x\<in>set (s # new). k = signal_key x \<and> kv_get k w' = Some (SignalJSON x))"
          by (cases "k = signal_key s") (auto simp: get2)
      qed
      have C: "\<forall>x\<in>set (s # new). \<exists>s'\<in>set (s # new). id_signal s' = id_signal x
            \<and> kv_get (signal_key x) w' = Some (SignalJSON s')"
      proof
        fix x assume "x \<in> set (s # new)"
        then consider "x = s" | "x \<in> set new" by auto
        then show "\<exists>s'\<in>set (s # new). id_signal s' = id_signal x
            \<and> kv_get (signal_key x) w' = Some (SignalJSON s')"
        proof cases
          case 1
          from keys have "kv_get (signal_key s) w' = kv_get (signal_key s) w2
            \<or> (\<exists>y\<in>set new. signal_key s = signal_key y
                  \<and> kv_get (signal_key s) w' = Some (SignalJSON y))" ..
          then show ?thesis
          proof
            assume "kv_get (signal_key s) w' = kv_get (signal_key s) w2"
            with 1 show ?thesis by (simp add: get2)
          next
            assume "\<exists>y\<in>set new. signal_key s = signal_key y
                  \<and> kv_get (signal_key s) w' = Some (SignalJSON y)"
            then obtain y where "y \<in> set new" "signal_key s = signal_key y"
              "kv_get (signal_key s) w' = Some (SignalJSON y)" by blast
            with 1 signal_key_inj [of s y] show ?thesis by auto
          qed
        next
          case 2
          with stored show ?thesis by auto
        qed
      qed
      have D: "\<forall>x\<in>set (s # new). \<exists>m\<in>set (m # rest). \<exists>w0. fst (generateSignal m w0) = Some x
            \<and> random_src w0 = random_src w \<and> toString36 w0 = toString36 w"
      proof
        fix x assume "x \<in> set (s # new)"
        then consider "x = s" | "x \<in> set new" by auto
        then show "\<exists>m\<in>set (m # rest). \<exists>w0. fst (generateSignal m w0) = Some x
            \<and> random_src w0 = random_src w \<and> toString36 w0 = toString36 w"
        proof cases
          case 1
          with gen Some have "fst (generateSignal m w) = Some x" by simp
          then show ?thesis by auto
        next
          case 2
          with made w2 show ?thesis by auto
        qed
      qed
      from A B C D src w2 show ?thesis by auto
    qed
  qed
qed

subsection \<open>What the two generators leave in the store\<close>

lemma those_map_set:
  "those (map f xs) = Some ys \<Longrightarrow> set ys = {y. \<exists>x\<in>set xs. f x = Some y}"
proof (induction xs arbitrary: ys)
  case Nil
  then show ?case by simp
next
  case (Cons x xs)
  from Cons.prems obtain y ys' where y: "f x = Some y" and ys': "those (map f xs) = Some ys'"
    and ys: "ys = y # ys'"
    by (auto split: option.splits)
  from Cons.IH [OF ys'] y ys show ?case by auto
qed

lemma those_map_defined:
  "(\<forall>x\<in>set xs. f x \<noteq> None) \<Longrightarrow> \<exists>ys. those (map f xs) = Some ys"
  by (induction xs) auto

lemma set_insert_by [simp]: "set (insert_by cmp x ys) = insert x (set ys)"
  by (induction ys) auto

lemma set_js_sort [simp]: "set (js_sort cmp xs) = set xs"
  unfolding js_sort_def by (induction xs) auto

lemma kv_getByPrefix_iff:
  "(k, v) \<in> set (kv_getByPrefix p w) \<longleftrightarrow> prefix p k \<and> kv_get k w = Some v"
  by (auto simp: kv_getByPrefix_def kv_get_def DAList.lookup.rep_eq)

lemma market_key_not_signal_key: "market_key i \<noteq> signal_key s"
  by (simp add: market_key_def signal_key_def)

lemma signal_key_not_market: "\<not> prefix ''market:'' (signal_key s)"
  by (simp add: signal_key_def)

lemma generateActiveSignals_result:
  assumes "generateActiveSignals count w = Inr (sigs, w')"
  shows "(\<forall>k. kv_get k w' = kv_get k w
            \<or> (\<exists>s\<in>set sigs. k = signal_key s \<and> kv_get k w' = Some (SignalJSON s)))
     \<and> (\<forall>s\<in>set sigs. \<exists>s'\<in>set sigs. id_signal s' = id_signal s
            \<and> kv_get (signal_key s) w' = Some (SignalJSON s'))
     \<and> (\<forall>s\<in>set sigs. \<exists>k m w0. prefix ''market:'' k \<and> kv_get k w = Some (MarketJSON m)
            \<and> fst (generateSignal m w0) = Some s
            \<and> random_src w0 = random_src w \<and> toString36 w0 = toString36 w)
     \<and> random_src w' = random_src w \<and> toString36 w' = toString36 w
     \<and> clock_src w' = clock_src w"
proof -
  from assms obtain markets where
    parsed: "those (map (\<lambda>k. as_market (snd k)) (kv_getByPrefix ''market:'' w)) = Some markets"
    and loop: "signals_loop
        (Math_min count (real (length (js_sort
            (\<lambda>a b. MarketState.volatility b - MarketState.volatility a) markets)))) 0
        (js_sort (\<lambda>a b. MarketState.volatility b - MarketState.volatility a) markets) [] w
        = (sigs, w')"
    by (auto simp: generateActiveSignals_def Let_def split: option.splits)
  have stored: "\<exists>k. prefix ''market:'' k \<and> kv_get k w = Some (MarketJSON m)"
    if "m \<in> set markets" for m
  proof -
    from that those_map_set [OF parsed]
    obtain e where e: "e \<in> set (kv_getByPrefix ''market:'' w)" "as_market (snd e) = Some m"
      by auto
    from e(2) have "snd e = MarketJSON m" by (cases "snd e") simp_all
    with e(1) have "(fst e, MarketJSON m) \<in> set (kv_getByPrefix ''market:'' w)"
      by (metis prod.collapse)
    then show ?thesis by (auto simp: kv_getByPrefix_iff)
  qed
  from signals_loop_result [OF loop]
  have keys: "\<forall>k. kv_get k w' = kv_get k w
            \<or> (\<exists>s\<in>set sigs. k = signal_key s \<and> kv_get k w' = Some (SignalJSON s))"
    and ids: "\<forall>s\<in>set sigs. \<exists>s'\<in>set sigs. id_signal s' = id_signal s
            \<and> kv_get (signal_key s) w' = Some (SignalJSON s')"
    and made: "\<forall>s\<in>set sigs. \<exists>m\<in>set markets. \<exists>w0. fst (generateSignal m w0) = Some s
            \<and> random_src w0 = random_src w \<and> toString36 w0 = toString36 w"
    and src: "random_src w' = random_src w" "toString36 w' = toString36 w"
      "clock_src w' = clock_src w"
    by auto
  have "\<forall>s\<in>set sigs. \<exists>k m w0. prefix ''market:'' k \<and> kv_get k w = Some (MarketJSON m)
            \<and> fst (generateSignal m w0) = Some s
            \<and> random_src w0 = random_src w \<and> toString36 w0 = toString36 w"
  proof
    fix s assume "s \<in> set sigs"
    with made obtain m w0 where "m \<in> set markets" "fst (generateSignal m w0) = Some s"
      "random_src w0 = random_src w" "toString36 w0 = toString36 w" by blast
    with stored [of m] show "\<exists>k m w0. prefix ''market:'' k \<and> kv_get k w = Some (MarketJSON m)
            \<and> fst (generateSignal m w0) = Some s
            \<and> random_src w0 = random_src w \<and> toString36 w0 = toString36 w" by blast
  qed
  with keys ids src show ?thesis by blast
qed

lemma initializeMockMarkets_result:
  assumes "initializeMockMarkets w = Inr (ms, w')"
  shows "length ms = 25
     \<and> (\<forall>i<25. marketId (ms ! i) = ''market-'' @ show_nat i
            \<and> 0 \<le> MarketState.volatility (ms ! i) \<and> MarketState.volatility (ms ! i) < 1
            \<and> kv_get (market_key i) w' = Some (MarketJSON (ms ! i)))
     \<and> (\<forall>k. (\<forall>i<25. k \<noteq> market_key i) \<longrightarrow> kv_get k w' = kv_get k w)
     \<and> random_src w' = random_src w \<and> toString36 w' = toString36 w
     \<and> clock_src w' = clock_src w"
  using markets_loop_Inr [of 0 "[]" w ms w'] assms
  by (auto simp: initializeMockMarkets_def)

lemma post_alert_handler_result:
  assumes "post_alert_handler userId b w = Inr (alert, w')"
  shows "\<exists>alerts. kv_get (''user:'' @ userId @ '':alerts'') w' = Some (AlertsJSON alerts)
     \<and> (\<forall>k. k \<noteq> ''user:'' @ userId @ '':alerts'' \<longrightarrow> kv_get k w' = kv_get k w)"
proof -
  define key where "key = ''user:'' @ userId @ '':alerts''"
  from assms obtain alerts w2 where w': "w' = kv_set key (AlertsJSON alerts) w2"
    and w2: "kv w2 = kv w"
    by (auto simp: post_alert_handler_def Let_def split_beta key_def split: option.splits)
  have "kv_get key w' = Some (AlertsJSON alerts)"
    by (simp add: w' kv_get_kv_set)
  moreover have "\<forall>k. k \<noteq> key \<longrightarrow> kv_get k w' = kv_get k w"
    using kv_get_cong [OF w2] by (simp add: w' kv_get_kv_set)
  ultimately show ?thesis unfolding key_def by blast
qed

subsection \<open>When the generators return\<close>

lemma redraw_team2_returns:
  assumes "pick ts (number_of (random_src w (random_calls w + k))) \<noteq> t1"
  shows "\<exists>y. redraw_team2 ts t1 t2 w = Some y"
  using assms
proof (induction k arbitrary: t2 w)
  case 0
  show ?case
  proof (cases "t2 = t1")
    case False
    then show ?thesis by (subst redraw_team2.simps) simp
  next
    case True
    have "pick ts (fst (Math_random w)) \<noteq> t1"
      using 0 by (simp add: Math_random_def)
    then have "redraw_team2 ts t1 (pick ts (fst (Math_random w))) (snd (Math_random w))
          = Some (pick ts (fst (Math_random w)), snd (Math_random w))"
      by (subst redraw_team2.simps) simp
    with True show ?thesis by (subst redraw_team2.simps) simp
  qed
next
  case (Suc k)
  show ?case
  proof (cases "t2 = t1")
    case False
    then show ?thesis by (subst redraw_team2.simps) simp
  next
    case True
    have "pick ts (number_of (random_src (snd (Math_random w))
            (random_calls (snd (Math_random w)) + k))) \<noteq> t1"
      using Suc.prems by simp
    from Suc.IH [OF this]
    obtain y where "redraw_team2 ts t1 (pick ts (fst (Math_random w))) (snd (Math_random w)) = Some y"
      by blast
    with True show ?thesis by (subst redraw_team2.simps) simp
  qed
qed

lemma teams_of_sport:
  assumes "sp \<in> set sports"
  shows "\<exists>ts. map_of teams sp = Some ts \<and> length ts = 6 \<and> distinct ts"
  using assms by (auto simp: sports_def teams_def)

lemma pick_six_differ:
  assumes "length ts = 6" and "distinct ts"
    and "0 \<le> r" "r < 1" "0 \<le> r'" "r' < 1"
    and "Math_floor (r * 6) \<noteq> Math_floor (r' * 6)"
  shows "pick ts r \<noteq> pick ts r'"
proof -
  have a: "nat \<lfloor>r * 6\<rfloor> < 6" using assms(3,4) by (simp add: nat_less_iff)
  have b: "nat \<lfloor>r' * 6\<rfloor> < 6" using assms(5,6) by (simp add: nat_less_iff)
  have "0 \<le> \<lfloor>r * 6\<rfloor>" and "0 \<le> \<lfloor>r' * 6\<rfloor>" using assms(3,5) by simp_all
  then have "(nat \<lfloor>r * 6\<rfloor> = nat \<lfloor>r' * 6\<rfloor>) = (\<lfloor>r * 6\<rfloor> = \<lfloor>r' * 6\<rfloor>)"
    by (rule eq_nat_nat_iff)
  with assms(7) have "nat \<lfloor>r * 6\<rfloor> \<noteq> nat \<lfloor>r' * 6\<rfloor>"
    by (simp add: Math_floor_def)
  with a b assms(1,2) show ?thesis
    by (simp add: pick_def Math_floor_def nth_eq_iff_index_eq)
qed

text \<open>The sport is one of the six that have teams, so the loop body never throws.\<close>

lemma new_market_not_TypeError: "new_market i w \<noteq> Inl TypeError"
proof -
  have "pick sports (fst (Math_random w)) \<in> set sports"
    using Math_random_range [of w] by (intro pick_in_set) (simp_all add: sports_def)
  from teams_of_sport [OF this] obtain ts
    where "map_of teams (pick sports (fst (Math_random w))) = Some ts" by blast
  then show ?thesis
    by (simp add: new_market_def Let_def split_beta split: option.splits)
qed

lemma new_market_returns:
  assumes "eventually_other_team w"
  shows "\<exists>m w'. new_market i w = Inr (m, w')"
proof -
  define c where "c = random_calls w"
  define sp where "sp = pick sports (number_of (random_src w c))"
  have "sp \<in> set sports"
    unfolding sp_def using number_of [of "random_src w c"]
    by (intro pick_in_set) (simp_all add: sports_def)
  from teams_of_sport [OF this] obtain ts where ts: "map_of teams sp = Some ts"
    "length ts = 6" "distinct ts" by blast
  define t1 where "t1 = pick ts (number_of (random_src w (Suc c)))"
  define w3 where "w3 = snd (Math_random (snd (Math_random (snd (Math_random w)))))"
  have w3: "random_src w3 = random_src w" "random_calls w3 = c + 3"
    by (simp_all add: w3_def c_def)
  from assms obtain k where
    k: "Math_floor (number_of (random_src w (Suc (Suc c) + k)) * 6)
        \<noteq> Math_floor (number_of (random_src w (Suc c)) * 6)"
    unfolding eventually_other_team_def by blast
  have differ: "pick ts (number_of (random_src w (Suc (Suc c) + k))) \<noteq> t1"
    unfolding t1_def
    using number_of [of "random_src w (Suc (Suc c) + k)"] number_of [of "random_src w (Suc c)"]
    by (intro pick_six_differ ts k) simp_all
  have "\<exists>y. redraw_team2 ts t1 (pick ts (number_of (random_src w (Suc (Suc c))))) w3 = Some y"
  proof (cases k)
    case 0
    with differ have "pick ts (number_of (random_src w (Suc (Suc c)))) \<noteq> t1" by simp
    then show ?thesis by (subst redraw_team2.simps) simp
  next
    case (Suc k')
    with differ have "pick ts (number_of (random_src w3 (random_calls w3 + k'))) \<noteq> t1"
      by (simp add: w3 numeral_3_eq_3)
    then show ?thesis by (rule redraw_team2_returns)
  qed
  then obtain t2 w4 where
    "redraw_team2 ts t1 (pick ts (number_of (random_src w (Suc (Suc c))))) w3 = Some (t2, w4)"
    by auto
  then show ?thesis
    using ts(1)
    by (simp add: new_market_def Let_def split_beta sp_def [symmetric, unfolded c_def]
        Math_random_def t1_def c_def w3_def)
qed

lemma markets_loop_returns:
  assumes "eventually_other_team w"
  shows "\<exists>ms' w'. markets_loop i ms w = Inr (ms', w')"
  using assms
proof (induction i ms w rule: markets_loop.induct)
  case (1 i ms w)
  show ?case
  proof (cases "i < 25")
    case False
    then show ?thesis by (simp add: markets_loop.simps [of i])
  next
    case True
    from new_market_returns [OF "1.prems"] obtain m w1 where nm: "new_market i w = Inr (m, w1)"
      by blast
    from new_market_Inr [OF nm] have "random_src w1 = random_src w" by simp
    then have "eventually_other_team (kv_set (''market:'' @ marketId m) (MarketJSON m) w1)"
      using "1.prems" by (simp add: eventually_other_team_def)
    from "1.IH" [OF True nm refl this] nm True show ?thesis
      by (simp add: markets_loop.simps [of i])
  qed
qed

lemma initializeMockMarkets_returns:
  "eventually_other_team w \<Longrightarrow> \<exists>ms w'. initializeMockMarkets w = Inr (ms, w')"
  unfolding initializeMockMarkets_def by (rule markets_loop_returns)

lemma list_all_entries:
  "list_all P (DAList.impl_of (kv w)) \<longleftrightarrow> (\<forall>k v. kv_get k w = Some v \<longrightarrow> P (k, v))"
  by (auto simp: list_all_iff kv_get_def DAList.lookup.rep_eq)

lemma markets_typed_iff:
  "markets_typed w \<longleftrightarrow>
     (\<forall>k v. kv_get k w = Some v \<longrightarrow> prefix ''market:'' k \<longrightarrow> as_market v \<noteq> None)"
  by (simp add: markets_typed_def list_all_entries)

lemma volatility_bounded_iff:
  "volatility_bounded w \<longleftrightarrow>
     (\<forall>k m. kv_get k w = Some (MarketJSON m)
        \<longrightarrow> 0 \<le> MarketState.volatility m \<and> MarketState.volatility m \<le> 1)"
  unfolding volatility_bounded_def list_all_entries
  by (auto split: blob.splits)

lemma generateActiveSignals_returns:
  assumes "markets_typed w"
  shows "\<exists>sigs w'. generateActiveSignals count w = Inr (sigs, w')"
proof -
  have "\<forall>e\<in>set (kv_getByPrefix ''market:'' w). as_market (snd e) \<noteq> None"
  proof
    fix e assume "e \<in> set (kv_getByPrefix ''market:'' w)"
    then have "(fst e, snd e) \<in> set (kv_getByPrefix ''market:'' w)" by simp
    then have "prefix ''market:'' (fst e)" "kv_get (fst e) w = Some (snd e)"
      unfolding kv_getByPrefix_iff by simp_all
    with assms show "as_market (snd e) \<noteq> None"
      unfolding markets_typed_iff by blast
  qed
  from those_map_defined [OF this] obtain markets where
    "those (map (\<lambda>k. as_market (snd k)) (kv_getByPrefix ''market:'' w)) = Some markets"
    by blast
  then show ?thesis
    by (simp add: generateActiveSignals_def Let_def)
qed

lemma initializeMockMarkets_typed:
  assumes "initializeMockMarkets w = Inr (ms, w')" and "markets_typed w"
  shows "markets_typed w'"
  unfolding markets_typed_iff
proof (intro allI impI)
  fix k v assume kv: "kv_get k w' = Some v" and "prefix ''market:'' k"
  note r = initializeMockMarkets_result [OF assms(1)]
  show "as_market v \<noteq> None"
  proof (cases "\<exists>i<25. k = market_key i")
    case True
    then obtain i where "i < 25" "k = market_key i" by blast
    with r kv have "v = MarketJSON (ms ! i)" by auto
    then show ?thesis by simp
  next
    case False
    with r have "kv_get k w' = kv_get k w" by blast
    with kv assms(2) \<open>prefix ''market:'' k\<close> show ?thesis
      unfolding markets_typed_iff by auto
  qed
qed

lemma init_handler_returns:
  assumes "eventually_other_team w" and "markets_typed w"
  shows "\<exists>resp w'. init_handler w = Inr (resp, w')"
proof -
  from initializeMockMarkets_returns [OF assms(1)] obtain ms w1
    where m: "initializeMockMarkets w = Inr (ms, w1)" by blast
  from initializeMockMarkets_typed [OF m assms(2)] have "markets_typed w1" .
  from generateActiveSignals_returns [OF this] obtain sigs w2
    where "generateActiveSignals 15 w1 = Inr (sigs, w2)" by blast
  with m show ?thesis by (simp add: init_handler_def)
qed

text \<open>What a call of the init handler leaves in the store.\<close>

lemma init_handler_result:
  assumes "init_handler w = Inr (resp, w')"
  shows "\<exists>ms w1 sigs. initializeMockMarkets w = Inr (ms, w1)
     \<and> generateActiveSignals 15 w1 = Inr (sigs, w')
     \<and> length ms = 25 \<and> markets resp = 25 \<and> signals resp = length sigs
     \<and> (\<forall>i<25. kv_get (market_key i) w' = Some (MarketJSON (ms ! i)))
     \<and> (\<forall>s\<in>set sigs. \<exists>s'\<in>set sigs. id_signal s' = id_signal s
            \<and> kv_get (signal_key s) w' = Some (SignalJSON s'))
     \<and> (\<forall>k. (\<forall>i<25. k \<noteq> market_key i) \<and> (\<forall>s\<in>set sigs. k \<noteq> signal_key s)
            \<longrightarrow> kv_get k w' = kv_get k w)"
proof -
  from assms obtain ms w1 sigs where m: "initializeMockMarkets w = Inr (ms, w1)"
    and g: "generateActiveSignals 15 w1 = Inr (sigs, w')"
    and resp: "resp = \<lparr>success = True, markets = 25, signals = length sigs\<rparr>"
    by (auto simp: init_handler_def split: sum.splits)
  note rm = initializeMockMarkets_result [OF m]
  note rg = generateActiveSignals_result [OF g]
  have keep: "kv_get k w' = kv_get k w1" if "\<forall>s\<in>set sigs. k \<noteq> signal_key s" for k
    using rg that by blast
  have "\<forall>i<25. kv_get (market_key i) w' = Some (MarketJSON (ms ! i))"
  proof (intro allI impI)
    fix i :: nat assume "i < 25"
    have "kv_get (market_key i) w' = kv_get (market_key i) w1"
      by (rule keep) (simp add: market_key_not_signal_key)
    with rm \<open>i < 25\<close> show "kv_get (market_key i) w' = Some (MarketJSON (ms ! i))" by simp
  qed
  moreover have "\<forall>k. (\<forall>i<25. k \<noteq> market_key i) \<and> (\<forall>s\<in>set sigs. k \<noteq> signal_key s)
            \<longrightarrow> kv_get k w' = kv_get k w"
    using keep rm by auto
  ultimately show ?thesis using m g rm rg resp by auto
qed

subsection \<open>The example state\<close>

lemma init_world_fair: "eventually_other_team init_world"
  unfolding eventually_other_team_def
proof
  fix n
  have "Math_floor (number_of (random_src init_world (Suc n + 0)) * 6)
        \<noteq> Math_floor (number_of (random_src init_world n) * 6)"
    by (simp add: init_world_def fraction.rep_eq Math_floor_def)
  then show "\<exists>k. Math_floor (number_of (random_src init_world (Suc n + k)) * 6)
        \<noteq> Math_floor (number_of (random_src init_world n) * 6)" ..
qed

lemma init_world_entries:
  "DAList.impl_of (kv init_world)
   = [(''signal:signal-1001-abcdefghi'', SignalJSON example_signal),
      (''user:u1:alerts'', AlertsJSON [example_alert])]"
  by (simp add: init_world_def DAList.update.rep_eq DAList.empty.rep_eq)

lemma init_world_typed: "markets_typed init_world"
  by (simp add: markets_typed_def init_world_entries)

lemma init_world_bounded: "volatility_bounded init_world"
  by (simp add: volatility_bounded_def init_world_entries)

lemma init_world_get:
  "kv_get ''signal:signal-1001-abcdefghi'' init_world = Some (SignalJSON example_signal)"
  "kv_get ''user:u1:alerts'' init_world = Some (AlertsJSON [example_alert])"
  by (simp_all add: kv_get_def init_world_def DAList.lookup_update)

lemma init_world_new_id:
  assumes "fst (generateSignal m w0) = Some s"
    and "random_src w0 = random_src init_world" and "toString36 w0 = toString36 init_world"
  shows "signal_key s \<noteq> ''signal:signal-1001-abcdefghi''"
proof -
  from generateSignal_id [OF assms(1)] obtain t n where
    "id_signal s = ''signal-'' @ show_int t @ ''-''
        @ substr (toString36 w0 (number_of (random_src w0 n))) 2 9"
    by blast
  then have "id_signal s = (''signal-'' @ show_int t @ ''-'') @ ''zzzzzzzzz''"
    by (simp add: assms(2,3) init_world_def example_toString36_def fraction.rep_eq substr_def)
  then have "last (signal_key s) = CHR ''z''"
    by (simp add: signal_key_def)
  then show ?thesis by auto
qed

section \<open>Properties of the store\<close>

text \<open>
  C5, as the specification states it: every record that is in the store before a call
  of the init handler is overwritten by the call, so that no signal record of an earlier
  call survives. It does not hold. A signal is stored under a key made of its own fresh
  id, and nothing is ever deleted: in the example state, whose store holds the signal
  generated at time 1000, the handler returns (its result is not \<open>Inl\<close>) at a time from
  2000 on, and in the state it leaves the key of that signal still holds it.
\<close>

theorem init_keeps_stale_signal:
  "\<not> isl (init_handler init_world)
   \<and> kv_get ''signal:signal-1001-abcdefghi'' init_world = Some (SignalJSON example_signal)
   \<and> kv_get ''signal:signal-1001-abcdefghi'' (snd (projr (init_handler init_world)))
       = Some (SignalJSON example_signal)
   \<and> triggeredAt example_signal = 1000 \<and> clock_src init_world 0 = 2000"
proof -
  from init_handler_returns [OF init_world_fair init_world_typed]
  obtain resp w' where run: "init_handler init_world = Inr (resp, w')" by blast
  from init_handler_result [OF run] obtain ms w1 sigs
    where m: "initializeMockMarkets init_world = Inr (ms, w1)"
      and g: "generateActiveSignals 15 w1 = Inr (sigs, w')"
      and frame: "\<forall>k. (\<forall>i<25. k \<noteq> market_key i) \<and> (\<forall>s\<in>set sigs. k \<noteq> signal_key s)
            \<longrightarrow> kv_get k w' = kv_get k init_world"
    by blast
  from initializeMockMarkets_result [OF m]
  have w1: "random_src w1 = random_src init_world" "toString36 w1 = toString36 init_world"
    by simp_all
  have "\<forall>s\<in>set sigs. ''signal:signal-1001-abcdefghi'' \<noteq> signal_key s"
  proof
    fix s assume "s \<in> set sigs"
    with generateActiveSignals_result [OF g] obtain m w0
      where "fst (generateSignal m w0) = Some s" "random_src w0 = random_src w1"
        "toString36 w0 = toString36 w1" by blast
    with w1 init_world_new_id [of m w0 s]
    show "''signal:signal-1001-abcdefghi'' \<noteq> signal_key s" by auto
  qed
  moreover have "\<forall>i<25. ''signal:signal-1001-abcdefghi'' \<noteq> market_key i"
    by (simp add: market_key_def)
  ultimately have "kv_get ''signal:signal-1001-abcdefghi'' w'
      = kv_get ''signal:signal-1001-abcdefghi'' init_world"
    using frame by blast
  then show ?thesis
    using run by (simp add: init_world_get) (simp add: example_signal_def init_world_def)
qed

text \<open>
  C5, amended: a call of the init handler that returns has generated 25 market states
  and a list of signals. The keys \<^verbatim>\<open>market:market-0\<close> to \<^verbatim>\<open>market:market-24\<close>
  hold the 25 new market states, the key of every new signal holds a new signal of that
  id, and every other key holds what it held before the call.
\<close>

theorem init_handler_overwrites:
  assumes "init_handler w = Inr (resp, w')"
  shows "\<exists>ms w1 sigs. initializeMockMarkets w = Inr (ms, w1)
     \<and> generateActiveSignals 15 w1 = Inr (sigs, w')
     \<and> length ms = 25
     \<and> market_key 0 = ''market:market-0'' \<and> market_key 24 = ''market:market-24''
     \<and> (\<forall>i<25. kv_get (market_key i) w' = Some (MarketJSON (ms ! i)))
     \<and> (\<forall>s\<in>set sigs. \<exists>s'\<in>set sigs. id_signal s' = id_signal s
            \<and> kv_get (signal_key s) w' = Some (SignalJSON s'))
     \<and> (\<forall>k. (\<forall>i<25. k \<noteq> market_key i) \<and> (\<forall>s\<in>set sigs. k \<noteq> signal_key s)
            \<longrightarrow> kv_get k w' = kv_get k w)"
proof -
  have "market_key 0 = ''market:market-0''" and "market_key 24 = ''market:market-24''"
    by (simp_all add: market_key_def show_nat.simps digit_char_def)
  with init_handler_result [OF assms] show ?thesis by blast
qed

theorem init_handler_overwrites_witness:
  "case init_handler init_world of
     Inl e \<Rightarrow> False
   | Inr (resp, w') \<Rightarrow>
       (case kv_get ''market:market-0'' w' of Some (MarketJSON m) \<Rightarrow> True | _ \<Rightarrow> False)
       \<and> (case kv_get ''market:market-24'' w' of Some (MarketJSON m) \<Rightarrow> True | _ \<Rightarrow> False)
       \<and> kv_get ''user:u1:alerts'' w' = Some (AlertsJSON [example_alert])"
proof -
  from init_handler_returns [OF init_world_fair init_world_typed]
  obtain resp w' where run: "init_handler init_world = Inr (resp, w')" by blast
  from init_handler_overwrites [OF run] obtain ms sigs
    where first: "market_key 0 = ''market:market-0''" and last: "market_key 24 = ''market:market-24''"
      and new: "\<forall>i<25. kv_get (market_key i) w' = Some (MarketJSON (ms ! i))"
      and frame: "\<forall>k. (\<forall>i<25. k \<noteq> market_key i) \<and> (\<forall>s\<in>set sigs. k \<noteq> signal_key s)
            \<longrightarrow> kv_get k w' = kv_get k init_world"
    by blast
  from new have "kv_get (market_key 0) w' = Some (MarketJSON (ms ! 0))"
    and "kv_get (market_key 24) w' = Some (MarketJSON (ms ! 24))"
    by simp_all
  then have a: "kv_get ''market:market-0'' w' = Some (MarketJSON (ms ! 0))"
    and b: "kv_get ''market:market-24'' w' = Some (MarketJSON (ms ! 24))"
    unfolding first last by simp_all
  have "(\<forall>i<25. ''user:u1:alerts'' \<noteq> market_key i)
      \<and> (\<forall>s\<in>set sigs. ''user:u1:alerts'' \<noteq> signal_key s)"
    by (simp add: market_key_def signal_key_def)
  with frame have "kv_get ''user:u1:alerts'' w' = kv_get ''user:u1:alerts'' init_world"
    by blast
  with a b run show ?thesis by (simp add: init_world_get)
qed

text \<open>
  C6: every one of the 25 market states that \<^verbatim>\<open>initializeMockMarkets\<close> produces
  and stores has a volatility between 0 and 1, and the bound is kept: the three functions
  that write to the store keep the volatility of every stored market state within the
  bound, and the two that do not generate markets leave every key of the prefix
  \<^verbatim>\<open>market:\<close> as it is.
\<close>

theorem market_volatility_bounded:
  "(initializeMockMarkets w = Inr (ms, w1) \<longrightarrow>
      length ms = 25
      \<and> (\<forall>m\<in>set ms. 0 \<le> MarketState.volatility m \<and> MarketState.volatility m \<le> 1)
      \<and> (\<forall>i<25. kv_get (market_key i) w1 = Some (MarketJSON (ms ! i)))
      \<and> (volatility_bounded w \<longrightarrow> volatility_bounded w1))
   \<and> (generateActiveSignals count w = Inr (sigs, w2) \<longrightarrow>
        (\<forall>k. prefix ''market:'' k \<longrightarrow> kv_get k w2 = kv_get k w)
        \<and> (volatility_bounded w \<longrightarrow> volatility_bounded w2))
   \<and> (post_alert_handler userId request_body w = Inr (alert, w3) \<longrightarrow>
        (\<forall>k. prefix ''market:'' k \<longrightarrow> kv_get k w3 = kv_get k w)
        \<and> (volatility_bounded w \<longrightarrow> volatility_bounded w3))"
proof (intro conjI impI)
  assume m: "initializeMockMarkets w = Inr (ms, w1)"
  note r = initializeMockMarkets_result [OF m]
  from r show "length ms = 25" by simp
  show "\<forall>m\<in>set ms. 0 \<le> MarketState.volatility m \<and> MarketState.volatility m \<le> 1"
  proof
    fix x assume "x \<in> set ms"
    then obtain i where "i < length ms" "x = ms ! i" by (auto simp: in_set_conv_nth)
    with r have "0 \<le> MarketState.volatility x \<and> MarketState.volatility x < 1" by simp
    then show "0 \<le> MarketState.volatility x \<and> MarketState.volatility x \<le> 1" by simp
  qed
  from r show "\<forall>i<25. kv_get (market_key i) w1 = Some (MarketJSON (ms ! i))" by simp
  assume b: "volatility_bounded w"
  show "volatility_bounded w1"
    unfolding volatility_bounded_iff
  proof (intro allI impI)
    fix k x assume k: "kv_get k w1 = Some (MarketJSON x)"
    show "0 \<le> MarketState.volatility x \<and> MarketState.volatility x \<le> 1"
    proof (cases "\<exists>i<25. k = market_key i")
      case True
      then obtain i where i: "i < 25" "k = market_key i" by blast
      with r k have "x = ms ! i" by auto
      with r i have "0 \<le> MarketState.volatility x \<and> MarketState.volatility x < 1" by simp
      then show ?thesis by simp
    next
      case False
      with r have "kv_get k w1 = kv_get k w" by blast
      with k b show ?thesis unfolding volatility_bounded_iff by auto
    qed
  qed
next
  assume g: "generateActiveSignals count w = Inr (sigs, w2)"
  note r = generateActiveSignals_result [OF g]
  then have keys: "kv_get k w2 = kv_get k w
      \<or> (\<exists>s\<in>set sigs. k = signal_key s \<and> kv_get k w2 = Some (SignalJSON s))" for k
    by blast
  show "\<forall>k. prefix ''market:'' k \<longrightarrow> kv_get k w2 = kv_get k w"
    using keys signal_key_not_market by blast
  assume b: "volatility_bounded w"
  show "volatility_bounded w2"
    unfolding volatility_bounded_iff
  proof (intro allI impI)
    fix k x assume "kv_get k w2 = Some (MarketJSON x)"
    with keys [of k] have "kv_get k w = Some (MarketJSON x)" by auto
    with b show "0 \<le> MarketState.volatility x \<and> MarketState.volatility x \<le> 1"
      unfolding volatility_bounded_iff by blast
  qed
next
  assume p: "post_alert_handler userId request_body w = Inr (alert, w3)"
  from post_alert_handler_result [OF p] obtain alerts
    where own: "kv_get (''user:'' @ userId @ '':alerts'') w3 = Some (AlertsJSON alerts)"
      and others: "\<forall>k. k \<noteq> ''user:'' @ userId @ '':alerts'' \<longrightarrow> kv_get k w3 = kv_get k w"
    by blast
  have "\<not> prefix ''market:'' (''user:'' @ userId @ '':alerts'')" by simp
  with others show "\<forall>k. prefix ''market:'' k \<longrightarrow> kv_get k w3 = kv_get k w" by metis
  assume b: "volatility_bounded w"
  show "volatility_bounded w3"
    unfolding volatility_bounded_iff
  proof (intro allI impI)
    fix k x assume k: "kv_get k w3 = Some (MarketJSON x)"
    with own have "k \<noteq> ''user:'' @ userId @ '':alerts''" by auto
    with others k have "kv_get k w = Some (MarketJSON x)" by simp
    with b show "0 \<le> MarketState.volatility x \<and> MarketState.volatility x \<le> 1"
      unfolding volatility_bounded_iff by blast
  qed
qed

theorem market_volatility_bounded_witness:
  "case initializeMockMarkets init_world of
     Inl e \<Rightarrow> False
   | Inr (ms, w1) \<Rightarrow>
       length ms = 25
       \<and> list_all (\<lambda>m. 0 \<le> MarketState.volatility m \<and> MarketState.volatility m \<le> 1) ms
       \<and> volatility_bounded init_world \<and> volatility_bounded w1
       \<and> (case generateActiveSignals 15 w1 of
             Inl e \<Rightarrow> False
           | Inr (sigs, w2) \<Rightarrow>
               volatility_bounded w2
               \<and> kv_get ''market:market-7'' w2 = kv_get ''market:market-7'' w1)
       \<and> (case post_alert_handler ''u1'' ''{}'' w1 of
             Inl e \<Rightarrow> False
           | Inr (alert, w3) \<Rightarrow>
               volatility_bounded w3
               \<and> kv_get ''market:market-7'' w3 = kv_get ''market:market-7'' w1)"
proof -
  from initializeMockMarkets_returns [OF init_world_fair]
  obtain ms w1 where m: "initializeMockMarkets init_world = Inr (ms, w1)" by blast
  from initializeMockMarkets_typed [OF m init_world_typed] have "markets_typed w1" .
  from generateActiveSignals_returns [OF this]
  obtain sigs w2 where g: "generateActiveSignals 15 w1 = Inr (sigs, w2)" by blast
  have "kv_get ''user:u1:alerts'' w1 = Some (AlertsJSON [example_alert])"
    using initializeMockMarkets_result [OF m] init_world_get(2)
    by (simp add: market_key_def)
  then obtain alert w3 where p: "post_alert_handler ''u1'' ''{}'' w1 = Inr (alert, w3)"
    by (simp add: post_alert_handler_def Let_def split_beta)
  note t1 = market_volatility_bounded [of init_world ms w1 15 sigs w2 "''u1''" "''{}''" alert w3]
  note t2 = market_volatility_bounded [of w1 ms w1 15 sigs w2 "''u1''" "''{}''" alert w3]
  from t1 m init_world_bounded have a: "length ms = 25"
    "\<forall>m\<in>set ms. 0 \<le> MarketState.volatility m \<and> MarketState.volatility m \<le> 1"
    "volatility_bounded w1"
    by simp_all
  from t2 g p a(3) have b: "volatility_bounded w2" "volatility_bounded w3"
    "\<forall>k. prefix ''market:'' k \<longrightarrow> kv_get k w2 = kv_get k w1"
    "\<forall>k. prefix ''market:'' k \<longrightarrow> kv_get k w3 = kv_get k w1"
    by simp_all
  have "prefix ''market:'' ''market:market-7''" by simp
  with b have "kv_get ''market:market-7'' w2 = kv_get ''market:market-7'' w1"
    "kv_get ''market:market-7'' w3 = kv_get ''market:market-7'' w1" by blast+
  with a b m g p init_world_bounded show ?thesis
    by (simp add: list_all_iff)
qed

section \<open>Properties of the signal list\<close>

lemma signal_order_le: "signal_order a b \<le> 0 \<longleftrightarrow> score_then_time a b"
  by (auto simp: signal_order_def score_then_time_def)

lemma score_then_time_total: "\<not> score_then_time a b \<Longrightarrow> score_then_time b a"
  by (auto simp: score_then_time_def)

lemma score_then_time_trans:
  "score_then_time a b \<Longrightarrow> score_then_time b c \<Longrightarrow> score_then_time a c"
  by (auto simp: score_then_time_def)

lemma sorted_insert_by:
  assumes "sorted_wrt score_then_time ys"
  shows "sorted_wrt score_then_time (insert_by signal_order x ys)"
  using assms
proof (induction ys)
  case Nil
  then show ?case by simp
next
  case (Cons y ys)
  show ?case
  proof (cases "signal_order x y \<le> 0")
    case True
    then have xy: "score_then_time x y" by (simp add: signal_order_le)
    with Cons.prems have "\<forall>z\<in>set ys. score_then_time x z"
      by (auto intro: score_then_time_trans)
    with True xy Cons.prems show ?thesis by simp
  next
    case False
    then have "score_then_time y x"
      by (simp add: signal_order_le score_then_time_total)
    with False Cons show ?thesis by auto
  qed
qed

lemma sorted_js_sort: "sorted_wrt score_then_time (js_sort signal_order xs)"
  unfolding js_sort_def by (induction xs) (simp_all add: sorted_insert_by)

lemma get_signals_handler_result:
  assumes "get_signals_handler sport_query marketType_query minConfidence w = Inr result"
  shows "sorted_wrt score_then_time result
     \<and> set result = {s. stored_signal w s \<and> passes sport_query (Signal.sport s)
          \<and> passes marketType_query (Signal.marketType s)
          \<and> (truthy minConfidence \<longrightarrow>
               signalScore s \<ge> (if minConfidence = Some ''high'' then 75
                                 else if minConfidence = Some ''medium'' then 55 else 0))}"
proof -
  from assms obtain allSignals where
    parsed: "those (map (\<lambda>k. as_signal (snd k)) (kv_getByPrefix ''signal:'' w)) = Some allSignals"
    by (auto simp: get_signals_handler_def Let_def split: option.splits)
  have stored: "set allSignals = {s. stored_signal w s}"
  proof -
    have "as_signal b = Some s \<longleftrightarrow> b = SignalJSON s" for b s
      by (cases b) auto
    then show ?thesis
      unfolding those_map_set [OF parsed] stored_signal_def by force
  qed
  from assms parsed have result: "result = js_sort signal_order
      (let allSignals1 =
                  (if truthy sport_query
                   then filter (\<lambda>s. Some (Signal.sport s) = sport_query) allSignals
                   else allSignals);
                allSignals2 =
                  (if truthy marketType_query
                   then filter (\<lambda>s. Some (Signal.marketType s) = marketType_query) allSignals1
                   else allSignals1)
       in (if truthy minConfidence
           then (let minScore = (if minConfidence = Some ''high'' then 75
                                 else if minConfidence = Some ''medium'' then 55 else 0)
                 in filter (\<lambda>s. signalScore s \<ge> minScore) allSignals2)
           else allSignals2))"
    by (simp add: get_signals_handler_def Let_def)
  have "sorted_wrt score_then_time result"
    unfolding result by (rule sorted_js_sort)
  moreover have "set result = {s. stored_signal w s \<and> passes sport_query (Signal.sport s)
          \<and> passes marketType_query (Signal.marketType s)
          \<and> (truthy minConfidence \<longrightarrow>
               signalScore s \<ge> (if minConfidence = Some ''high'' then 75
                                 else if minConfidence = Some ''medium'' then 55 else 0))}"
    unfolding result by (auto simp: Let_def stored passes_def)
  ultimately show ?thesis by simp
qed

lemma signals_world_all:
  "get_signals_handler None None None signals_world
   = Inr [better_signal, example_signal, earlier_signal]"
  by code_simp

lemma signals_world_high:
  "get_signals_handler None None (Some ''high'') signals_world
   = Inr [better_signal, example_signal, earlier_signal]"
  by code_simp

lemma signals_world_NBA:
  "get_signals_handler (Some ''NBA'') (Some '''') (Some ''medium'') signals_world
   = Inr [better_signal]"
  by code_simp

text \<open>
  C9: the list that \<^verbatim>\<open>GET /signals\<close> returns is sorted by descending score, and
  by descending trigger time among equal scores: whatever the store and the filters,
  each signal of the list and the one after it are in the order \<open>score_then_time\<close>,
  and so are any two signals of which one comes later in the list.
\<close>

theorem get_signals_sorted:
  assumes "get_signals_handler sport_query marketType_query minConfidence w = Inr result"
  shows "(\<forall>i. Suc i < length result \<longrightarrow> score_then_time (result ! i) (result ! Suc i))
     \<and> sorted_wrt score_then_time result"
proof -
  from get_signals_handler_result [OF assms]
  have sorted: "sorted_wrt score_then_time result" by simp
  then have "\<forall>i. Suc i < length result \<longrightarrow> score_then_time (result ! i) (result ! Suc i)"
    by (simp add: sorted_wrt_iff_nth_less)
  with sorted show ?thesis by simp
qed

theorem get_signals_sorted_witness:
  "get_signals_handler None None None signals_world
     = Inr [better_signal, example_signal, earlier_signal]
   \<and> score_then_time better_signal example_signal
   \<and> score_then_time example_signal earlier_signal
   \<and> signalScore better_signal = 80 \<and> signalScore example_signal = 75
   \<and> signalScore earlier_signal = 75
   \<and> triggeredAt example_signal = 1000 \<and> triggeredAt earlier_signal = 900"
proof -
  from get_signals_sorted [OF signals_world_all]
  have "score_then_time better_signal example_signal
      \<and> score_then_time example_signal earlier_signal"
    by simp
  then show ?thesis
    using signals_world_all
    by (simp add: better_signal_def earlier_signal_def example_signal_def)
qed

text \<open>
  C10: the filter \<^verbatim>\<open>minConfidence\<close> of \<^verbatim>\<open>GET /signals\<close> selects by score,
  with thresholds that include their bound: under \<^verbatim>\<open>high\<close> a stored signal that
  passes the other filters is returned exactly when its score is at least 75, under
  \<^verbatim>\<open>medium\<close> exactly when it is at least 55. So a signal that
  \<^verbatim>\<open>generateSignal\<close> made with the score 75, whose confidence is medium, is
  returned under \<^verbatim>\<open>high\<close>.
\<close>

theorem minConfidence_selects_by_score:
  assumes "get_signals_handler sport_query marketType_query minConfidence w = Inr result"
  shows "(minConfidence = Some ''high'' \<longrightarrow>
            (s \<in> set result \<longleftrightarrow>
               stored_signal w s \<and> passes sport_query (Signal.sport s)
               \<and> passes marketType_query (Signal.marketType s) \<and> signalScore s \<ge> 75))
     \<and> (minConfidence = Some ''medium'' \<longrightarrow>
            (s \<in> set result \<longleftrightarrow>
               stored_signal w s \<and> passes sport_query (Signal.sport s)
               \<and> passes marketType_query (Signal.marketType s) \<and> signalScore s \<ge> 55))
     \<and> (minConfidence = Some ''high'' \<and> fst (generateSignal m w0) = Some s
          \<and> signalScore s = 75 \<and> stored_signal w s \<and> passes sport_query (Signal.sport s)
          \<and> passes marketType_query (Signal.marketType s)
          \<longrightarrow> confidence s = Medium \<and> s \<in> set result)"
proof -
  note r = get_signals_handler_result [OF assms]
  have high: "s \<in> set result \<longleftrightarrow>
               stored_signal w s \<and> passes sport_query (Signal.sport s)
               \<and> passes marketType_query (Signal.marketType s) \<and> signalScore s \<ge> 75"
    if "minConfidence = Some ''high''"
    using r that by simp
  have medium: "s \<in> set result \<longleftrightarrow>
               stored_signal w s \<and> passes sport_query (Signal.sport s)
               \<and> passes marketType_query (Signal.marketType s) \<and> signalScore s \<ge> 55"
    if "minConfidence = Some ''medium''"
    using r that by simp
  have bucket: "confidence s = Medium"
    if "fst (generateSignal m w0) = Some s" and "signalScore s = 75"
  proof -
    have "\<not> MarketState.volatility m < 0.3"
      using that(1) generateSignal_None [of m w0] by auto
    from generateSignal_Some [OF this, of w0] that show ?thesis by auto
  qed
  from high medium bucket show ?thesis by auto
qed

theorem minConfidence_selects_by_score_witness:
  "get_signals_handler None None (Some ''high'') signals_world
     = Inr [better_signal, example_signal, earlier_signal]
   \<and> fst (generateSignal example_market example_world) = Some example_signal
   \<and> signalScore example_signal = 75 \<and> confidence example_signal = Medium
   \<and> stored_signal signals_world example_signal
   \<and> example_signal \<in> set [better_signal, example_signal, earlier_signal]
   \<and> get_signals_handler (Some ''NBA'') (Some '''') (Some ''medium'') signals_world
     = Inr [better_signal]
   \<and> signalScore earlier_signal \<ge> 55 \<and> \<not> passes (Some ''NBA'') (Signal.sport earlier_signal)
   \<and> earlier_signal \<notin> set [better_signal]"
proof -
  have stored: "stored_signal signals_world example_signal"
    by code_simp
  have score: "signalScore example_signal = 75"
    by (simp add: example_signal_def)
  note high = minConfidence_selects_by_score [OF signals_world_high,
      of example_signal example_market example_world]
  from high stored score example_generateSignal
  have "confidence example_signal = Medium
      \<and> example_signal \<in> set [better_signal, example_signal, earlier_signal]"
    by (simp add: passes_def)
  moreover
  note medium = minConfidence_selects_by_score [OF signals_world_NBA, of earlier_signal]
  have "\<not> passes (Some ''NBA'') (Signal.sport earlier_signal)"
    by (simp add: passes_def earlier_signal_def example_signal_def)
  with medium have "earlier_signal \<notin> set [better_signal]"
    by simp
  moreover have "signalScore earlier_signal \<ge> 55"
    by (simp add: earlier_signal_def example_signal_def)
  ultimately show ?thesis
    using signals_world_high signals_world_NBA example_generateSignal stored score
    by (simp add: passes_def earlier_signal_def example_signal_def)
qed

end
